theory Spec2Isabelle
  imports Complex_Main
begin

section \<open>Scrape Coordinator: partition of an ID range (parallel-scraper.js, scrapeRange)\<close>

text \<open>
  IDs and the worker count are JavaScript numbers holding integers; they are modelled as
  unbounded \<open>int\<close> (every auction ID is far below \<open>2^53\<close>, where doubles are exact).
  \<open>Math.ceil((endId - startId + 1) / this.workerCount)\<close> is the ceiling of the exact
  quotient.
\<close>

definition rangePerWorker :: "int \<Rightarrow> int \<Rightarrow> int \<Rightarrow> int" where
  "rangePerWorker startId endId workerCount =
     \<lceil>(of_int (endId - startId + 1) :: rat) / of_int workerCount\<rceil>"

text \<open>
  The launch loop \<open>for (let i = 0; i < this.workerCount; i++)\<close>. Each launched worker is
  recorded as \<open>(workerId, workerStart, workerEnd)\<close>; \<open>break\<close> ends the loop as soon as a
  worker would start beyond \<open>endId\<close>.
\<close>

function launchLoop :: "int \<Rightarrow> int \<Rightarrow> int \<Rightarrow> int \<Rightarrow> int \<Rightarrow> (int \<times> int \<times> int) list" where
  "launchLoop startId endId workerCount rpw i =
     (if i < workerCount then
        (let workerStart = startId + i * rpw;
             workerEnd = min (workerStart + rpw - 1) endId
         in if workerStart > endId then []
            else (i, workerStart, workerEnd) # launchLoop startId endId workerCount rpw (i + 1))
      else [])"
  by pat_completeness auto
termination
  by (relation "measure (\<lambda>(startId, endId, workerCount, rpw, i). nat (workerCount - i))") auto

declare launchLoop.simps [simp del]

definition scrapeRange_jobs :: "int \<Rightarrow> int \<Rightarrow> int \<Rightarrow> (int \<times> int \<times> int) list" where
  "scrapeRange_jobs startId endId workerCount =
     launchLoop startId endId workerCount (rangePerWorker startId endId workerCount) 0"

text \<open>The IDs a launched worker is given: its loop runs \<open>id = startId .. endId\<close>.\<close>

definition job_ids :: "int \<times> int \<times> int \<Rightarrow> int list" where
  "job_ids j = (case j of (w, s, e) \<Rightarrow> [s..e])"

definition job_has :: "int \<Rightarrow> int \<times> int \<times> int \<Rightarrow> bool" where
  "job_has x j = (case j of (w, s, e) \<Rightarrow> s \<le> x \<and> x \<le> e)"


section \<open>JavaScript values used by the Bid Tracker and the Worker Unit\<close>

text \<open>
  A JavaScript number is modelled as \<open>NaN\<close>, an infinity (\<open>Infinity True\<close> is \<open>+Infinity\<close>) or
  a finite value. Finite values are exact rationals: the rounding of IEEE doubles and the
  sign of zero are not modelled. A numeric slot of an object may also be \<open>undefined\<close>
  (the property is absent) or \<open>null\<close>.
\<close>

datatype num = NaN | Infinity bool | Fin rat

datatype jsnum = Undefined | Null | Number num

text \<open>ToNumber, as applied by \<open>-\<close>, \<open>>\<close> and \<open>>=\<close> to their operands.\<close>

definition ToNumber :: "jsnum \<Rightarrow> num" where
  "ToNumber v = (case v of Undefined \<Rightarrow> NaN | Null \<Rightarrow> Fin 0 | Number n \<Rightarrow> n)"

text \<open>ToBoolean: \<open>undefined\<close>, \<open>null\<close>, \<open>NaN\<close> and \<open>0\<close> are falsy.\<close>

definition truthy :: "jsnum \<Rightarrow> bool" where
  "truthy v = (case v of Number (Fin x) \<Rightarrow> x \<noteq> 0 | Number (Infinity s) \<Rightarrow> True | _ \<Rightarrow> False)"

text \<open>\<open>a || b\<close>\<close>

definition js_or :: "jsnum \<Rightarrow> jsnum \<Rightarrow> jsnum" where
  "js_or a b = (if truthy a then a else b)"

text \<open>\<open>a !== b\<close>: \<open>NaN\<close> differs from everything, itself included.\<close>

definition strict_neq :: "jsnum \<Rightarrow> jsnum \<Rightarrow> bool" where
  "strict_neq a b = (a = Number NaN \<or> b = Number NaN \<or> a \<noteq> b)"

fun num_sub :: "num \<Rightarrow> num \<Rightarrow> num" where
  "num_sub (Fin x) (Fin y) = Fin (x - y)"
| "num_sub NaN _ = NaN"
| "num_sub _ NaN = NaN"
| "num_sub (Infinity s) (Infinity t) = (if s = t then NaN else Infinity s)"
| "num_sub (Infinity s) (Fin y) = Infinity s"
| "num_sub (Fin x) (Infinity t) = Infinity (\<not> t)"

fun num_mul :: "num \<Rightarrow> num \<Rightarrow> num" where
  "num_mul (Fin x) (Fin y) = Fin (x * y)"
| "num_mul NaN _ = NaN"
| "num_mul _ NaN = NaN"
| "num_mul (Infinity s) (Infinity t) = Infinity (s = t)"
| "num_mul (Infinity s) (Fin y) = (if y = 0 then NaN else Infinity (s = (0 < y)))"
| "num_mul (Fin x) (Infinity t) = (if x = 0 then NaN else Infinity (t = (0 < x)))"

fun num_div :: "num \<Rightarrow> num \<Rightarrow> num" where
  "num_div (Fin x) (Fin y) =
     (if y = 0 then (if x = 0 then NaN else Infinity (0 < x)) else Fin (x / y))"
| "num_div NaN _ = NaN"
| "num_div _ NaN = NaN"
| "num_div (Infinity s) (Infinity t) = NaN"
| "num_div (Infinity s) (Fin y) = Infinity (s = (0 \<le> y))"
| "num_div (Fin x) (Infinity t) = Fin 0"

text \<open>\<open>a > b\<close> and \<open>a >= b\<close> on numbers: false as soon as one side is \<open>NaN\<close>.\<close>

fun num_gt :: "num \<Rightarrow> num \<Rightarrow> bool" where
  "num_gt (Fin x) (Fin y) = (x > y)"
| "num_gt NaN _ = False"
| "num_gt _ NaN = False"
| "num_gt (Infinity s) (Infinity t) = (s \<and> \<not> t)"
| "num_gt (Infinity s) (Fin y) = s"
| "num_gt (Fin x) (Infinity t) = (\<not> t)"

fun num_ge :: "num \<Rightarrow> num \<Rightarrow> bool" where
  "num_ge (Fin x) (Fin y) = (x \<ge> y)"
| "num_ge NaN _ = False"
| "num_ge _ NaN = False"
| "num_ge (Infinity s) (Infinity t) = (s \<or> \<not> t)"
| "num_ge (Infinity s) (Fin y) = s"
| "num_ge (Fin x) (Infinity t) = (\<not> t)"

text \<open>
  Values of other slots: \<open>null\<close>/\<open>undefined\<close>, a string or a boolean (the \<open>hasBids\<close> flag,
  which the scrapers compute with \<open>&&\<close> and therefore may hold a falsy string or \<open>null\<close>).
\<close>

datatype jsval = Nullish | Str string | Bool bool

definition truthy_val :: "jsval \<Rightarrow> bool" where
  "truthy_val v = (case v of Nullish \<Rightarrow> False | Str s \<Rightarrow> s \<noteq> [] | Bool b \<Rightarrow> b)"

text \<open>
  A string slot is \<open>None\<close> when the value is \<open>null\<close> or the property is absent: the code
  only tests these slots for truthiness or copies them.
\<close>

definition truthy_str :: "string option \<Rightarrow> bool" where
  "truthy_str v = (case v of None \<Rightarrow> False | Some s \<Rightarrow> s \<noteq> [])"

text \<open>
  The \<open>auctionId\<close> slot is used as a property key and the \<open>biddingCloses\<close> slot as the
  argument of \<open>new Date\<close>, so their three cases are kept apart: the property is absent
  (\<open>undefined\<close>), \<open>null\<close>, or a string.
\<close>

datatype slot = Absent | NullValue | Text string

definition truthy_slot :: "slot \<Rightarrow> bool" where
  "truthy_slot v = (case v of Text s \<Rightarrow> s \<noteq> [] | _ \<Rightarrow> False)"


section \<open>ListingRecord\<close>

text \<open>
  The object built by the worker's \<open>page.evaluate\<close> (one slot per DOM element read with
  \<open>getText\<close>, \<open>null\<close> when the element is missing), and the listing record the worker sends
  after adding the numeric slots and \<open>hasBids\<close>. \<open>scrapedAt\<close> is the capture time in
  milliseconds since the epoch.
\<close>

record pagedata =
  parcelId :: "string option"
  address :: "string option"
  city :: "string option"
  zip :: "string option"
  legalDescription :: "string option"
  sevValue :: "string option"
  auctionId :: slot
  status :: "string option"
  biddingCloses :: slot
  currentBid :: "string option"
  minimumBid :: "string option"
  summerTax :: "string option"
  winterTax :: "string option"
  scrapedAt :: int

record listing = pagedata +
  minimumBidNumeric :: jsnum
  currentBidNumeric :: jsnum
  sevValueNumeric :: jsnum
  hasBids :: jsval


section \<open>Bid Tracker (bid-tracker, class BidTracker)\<close>

text \<open>
  A BidSnapshot. \<open>timestamp\<close> is the time of the pass in milliseconds since the epoch (the
  source keeps its ISO string and parses it back with \<open>new Date\<close>). The slots
  \<open>currentBid\<close>, \<open>minimumBid\<close>, \<open>hasBids\<close> and \<open>status\<close> of a snapshot carry the prefix
  \<open>snap_\<close>, since a listing has slots of the same names. \<open>change\<close> and \<open>changePercent\<close>
  are \<open>Undefined\<close> when the snapshot has no such slot.
\<close>

record snapshot =
  timestamp :: int
  snap_currentBid :: jsnum
  snap_hasBids :: jsval
  snap_minimumBid :: jsnum
  snap_status :: "string option"
  change :: jsnum
  changePercent :: jsnum

record metrics =
  totalChanges :: nat
  bidVelocity :: rat
  lastChangeHours :: "rat option"
  totalIncrease :: num
  totalIncreasePercent :: jsnum
  firstBid :: jsnum
  competitionScore :: nat

text \<open>
  A ListingHistory, the value stored in \<open>this.bidHistory[auctionId]\<close>; its slots
  \<open>auctionId\<close>, \<open>address\<close> and \<open>city\<close> carry the prefix \<open>h_\<close>.
\<close>

record propertyHistory =
  h_auctionId :: slot
  h_address :: "string option"
  h_city :: "string option"
  history :: "snapshot list"
  metrics :: metrics

text \<open>
  The tracker object: \<open>this.bidHistory\<close> is a plain object, modelled as the map of its
  own properties from key to history, and \<open>this.currentProperties\<close> the listings loaded
  from the properties file.
\<close>

record tracker =
  bidHistory :: "string \<rightharpoonup> propertyHistory"
  currentProperties :: "listing list"

text \<open>The constructor.\<close>

definition BidTracker :: tracker where
  "BidTracker = \<lparr>bidHistory = Map.empty, currentProperties = []\<rparr>"

text \<open>
  The property key of \<open>this.bidHistory[auctionId]\<close>: the string itself, and the strings
  \<open>"undefined"\<close> and \<open>"null"\<close> for an absent and a \<open>null\<close> ID.
\<close>

definition propertyKey :: "slot \<Rightarrow> string" where
  "propertyKey a =
     (case a of Absent \<Rightarrow> ''undefined'' | NullValue \<Rightarrow> ''null'' | Text k \<Rightarrow> k)"

text \<open>
  The names that every plain object inherits from \<open>Object.prototype\<close>. Reading one of
  them on \<open>this.bidHistory\<close>, when the object has no own property of that name, yields a
  function (for \<open>__proto__\<close>, the prototype object): a truthy value without a \<open>history\<close>.
\<close>

definition prototypeMembers :: "string list" where
  "prototypeMembers =
     [''constructor'', ''__defineGetter__'', ''__defineSetter__'', ''hasOwnProperty'',
      ''__lookupGetter__'', ''__lookupSetter__'', ''isPrototypeOf'',
      ''propertyIsEnumerable'', ''toString'', ''valueOf'', ''__proto__'',
      ''toLocaleString'']"

datatype error = PersistenceError | TypeError

text \<open>
  \<open>loadBidHistory\<close>: the argument is the object that \<open>JSON.parse\<close> returns for the history
  file, \<open>None\<close> when the file is missing or reading or parsing it throws.
\<close>

definition loadBidHistory :: "(string \<rightharpoonup> propertyHistory) option \<Rightarrow> tracker \<Rightarrow> tracker" where
  "loadBidHistory file t =
     (case file of
        Some stored \<Rightarrow> t\<lparr>bidHistory := stored\<rparr>
      | None \<Rightarrow> t\<lparr>bidHistory := Map.empty\<rparr>)"

text \<open>
  \<open>loadCurrentProperties\<close>: the argument is the parsed content of the properties file,
  \<open>None\<close> when reading or parsing it throws.
\<close>

definition isIndividual :: "listing \<Rightarrow> bool" where
  "isIndividual p = (truthy_slot (biddingCloses p) \<and> biddingCloses p \<noteq> Text ''N/A'')"

definition loadCurrentProperties :: "listing list option \<Rightarrow> tracker \<Rightarrow> tracker" where
  "loadCurrentProperties file t =
     (case file of
        Some allProperties \<Rightarrow> t\<lparr>currentProperties := filter isIndividual allProperties\<rparr>
      | None \<Rightarrow> t\<lparr>currentProperties := []\<rparr>)"

text \<open>The first loop of \<open>updateMetrics\<close>: \<open>for (let i = 1; i < history.length; i++)\<close>.\<close>

function countChanges :: "snapshot list \<Rightarrow> nat \<Rightarrow> nat \<Rightarrow> nat" where
  "countChanges h i changes =
     (if i < length h then
        countChanges h (i + 1)
          (if strict_neq (snap_currentBid (h ! i)) (snap_currentBid (h ! (i - 1)))
           then changes + 1 else changes)
      else changes)"
  by pat_completeness auto
termination
  by (relation "measure (\<lambda>(h, i, changes). length h - i)") auto

declare countChanges.simps [simp del]

text \<open>
  The second loop: \<open>for (let i = history.length - 1; i > 0; i--)\<close>, which assigns
  \<open>lastChangeIndex\<close> and breaks at the first change met. \<open>findLastChange h i l\<close> is the
  value of \<open>lastChangeIndex\<close> after the loop, entered with counter \<open>i\<close> and
  \<open>lastChangeIndex = l\<close>.
\<close>

fun findLastChange :: "snapshot list \<Rightarrow> nat \<Rightarrow> nat \<Rightarrow> nat" where
  "findLastChange h 0 l = l"
| "findLastChange h (Suc j) l =
     (if strict_neq (snap_currentBid (h ! Suc j)) (snap_currentBid (h ! j)) then Suc j
      else findLastChange h j l)"

text \<open>The spike loop of \<open>calculateCompetitionScore\<close>, from counter \<open>i\<close>.\<close>

function hasSpike :: "snapshot list \<Rightarrow> nat \<Rightarrow> bool" where
  "hasSpike h i =
     (if i < length h then
        (let change = js_or (changePercent (h ! i)) (Number (Fin 0))
         in if num_ge (ToNumber change) (Fin 20) then True else hasSpike h (i + 1))
      else False)"
  by pat_completeness auto
termination
  by (relation "measure (\<lambda>(h, i). length h - i)") auto

declare hasSpike.simps [simp del]

definition calculateCompetitionScore :: "propertyHistory \<Rightarrow> nat" where
  "calculateCompetitionScore propertyHistory =
     (let m = metrics propertyHistory;
          h = history propertyHistory;
          score = 0;
          score = score +
            (if totalChanges m \<ge> 10 then 30
             else if totalChanges m \<ge> 5 then 20
             else if totalChanges m \<ge> 3 then 10
             else if totalChanges m \<ge> 1 then 5 else 0);
          score = score +
            (if bidVelocity m \<ge> 5 then 25
             else if bidVelocity m \<ge> 2 then 20
             else if bidVelocity m \<ge> 1 then 15
             else if bidVelocity m \<ge> 1 / 2 then 10 else 0);
          score = score +
            (case lastChangeHours m of
               None \<Rightarrow> 0
             | Some hours \<Rightarrow>
                 (if hours \<le> 1 then 20
                  else if hours \<le> 6 then 15
                  else if hours \<le> 24 then 10
                  else if hours \<le> 48 then 5 else 0));
          score = score +
            (if num_ge (ToNumber (totalIncreasePercent m)) (Fin 50) then 15
             else if num_ge (ToNumber (totalIncreasePercent m)) (Fin 25) then 10
             else if num_ge (ToNumber (totalIncreasePercent m)) (Fin 10) then 5 else 0);
          score = score + (if hasSpike h 1 then 10 else 0)
      in min score 100)"

text \<open>
  \<open>updateMetrics\<close>; \<open>now\<close> is the value of its \<open>new Date()\<close>. The metrics object is
  mutated slot by slot and \<open>calculateCompetitionScore\<close> reads the slots already assigned.
\<close>

definition updateMetrics :: "int \<Rightarrow> propertyHistory \<Rightarrow> propertyHistory" where
  "updateMetrics now propertyHistory =
     (let h = history propertyHistory;
          m = metrics propertyHistory
      in if length h < 2 then propertyHistory
         else
           (let changes = countChanges h 1 0;
                m = m\<lparr>totalChanges := changes\<rparr>;
                firstTime = timestamp (h ! 0);
                lastTime = timestamp (h ! (length h - 1));
                daysDiff = (of_int (lastTime - firstTime) :: rat) / (1000 * 60 * 60 * 24);
                m = m\<lparr>bidVelocity := (if daysDiff > 0 then of_nat changes / daysDiff else 0)\<rparr>;
                lastChangeIndex = findLastChange h (length h - 1) (length h - 1);
                m = (if lastChangeIndex > 0
                     then m\<lparr>lastChangeHours :=
                            Some ((of_int (now - timestamp (h ! lastChangeIndex)) :: rat)
                                  / (1000 * 60 * 60))\<rparr>
                     else m);
                firstBid = snap_currentBid (h ! 0);
                currentBid = snap_currentBid (h ! (length h - 1));
                m = m\<lparr>totalIncrease := num_sub (ToNumber currentBid) (ToNumber firstBid)\<rparr>;
                m = m\<lparr>totalIncreasePercent :=
                       (if num_gt (ToNumber firstBid) (Fin 0)
                        then Number (num_mul
                               (num_div (num_sub (ToNumber currentBid) (ToNumber firstBid))
                                        (ToNumber firstBid))
                               (Fin 100))
                        else Number (Fin 0))\<rparr>;
                propertyHistory = propertyHistory\<lparr>metrics := m\<rparr>
            in propertyHistory\<lparr>metrics :=
                 m\<lparr>competitionScore := calculateCompetitionScore propertyHistory\<rparr>\<rparr>))"

text \<open>
  The body of the loop of \<open>recordSnapshot\<close> for one listing: the new content of
  \<open>this.bidHistory\<close> and whether \<open>hasChanged\<close> held. \<open>timestamp\<close> is the time read at the
  start of the pass, \<open>now\<close> the time read by \<open>updateMetrics\<close> for this listing.
\<close>

definition newHistory :: "listing \<Rightarrow> propertyHistory" where
  "newHistory property =
     \<lparr>h_auctionId = auctionId property,
      h_address = address property,
      h_city = city property,
      history = [],
      metrics = \<lparr>totalChanges = 0, bidVelocity = 0, lastChangeHours = None,
                 totalIncrease = Fin 0, totalIncreasePercent = Undefined,
                 firstBid = js_or (currentBidNumeric property) (minimumBidNumeric property),
                 competitionScore = 0\<rparr>\<rparr>"

text \<open>
  When the key names a member of \<open>Object.prototype\<close> and the object has no own property
  for it, \<open>!this.bidHistory[auctionId]\<close> is false, no history is created, and reading
  \<open>propertyHistory.history.length\<close> throws a TypeError. Amounts and percentages are exact
  rationals; the source rounds each operation to a double.
\<close>

definition snapshotProperty ::
  "int \<Rightarrow> int \<Rightarrow> (string \<rightharpoonup> propertyHistory) \<Rightarrow> listing
     \<Rightarrow> error + ((string \<rightharpoonup> propertyHistory) \<times> bool)" where
  "snapshotProperty ts now bh property =
     (let key = propertyKey (auctionId property)
      in if bh key = None \<and> key \<in> set prototypeMembers then Inl TypeError
         else
           (let propertyHistory =
                  (case bh key of None \<Rightarrow> newHistory property | Some ph \<Rightarrow> ph);
                h = history propertyHistory;
                lastSnapshot = (if h = [] then None else Some (h ! (length h - 1)));
                currentBid = js_or (currentBidNumeric property) (minimumBidNumeric property);
                hasChanged = (case lastSnapshot of
                                None \<Rightarrow> True
                              | Some l \<Rightarrow> strict_neq (snap_currentBid l) currentBid);
                snapshot = \<lparr>timestamp = ts,
                            snap_currentBid = currentBid,
                            snap_hasBids = (if truthy_val (hasBids property)
                                            then hasBids property else Bool False),
                            snap_minimumBid = minimumBidNumeric property,
                            snap_status = status property,
                            change = Undefined,
                            changePercent = Undefined\<rparr>;
                snapshot = (case lastSnapshot of
                              None \<Rightarrow> snapshot
                            | Some l \<Rightarrow>
                                if hasChanged then
                                  snapshot\<lparr>
                                    change := Number (num_sub (ToNumber currentBid)
                                                              (ToNumber (snap_currentBid l))),
                                    changePercent :=
                                      (if num_gt (ToNumber (snap_currentBid l)) (Fin 0)
                                       then Number (num_mul
                                              (num_div (num_sub (ToNumber currentBid)
                                                                (ToNumber (snap_currentBid l)))
                                                       (ToNumber (snap_currentBid l)))
                                              (Fin 100))
                                       else Number (Fin 0))\<rparr>
                                else snapshot);
                propertyHistory = propertyHistory\<lparr>history := h @ [snapshot]\<rparr>
            in Inr (bh(key \<mapsto> updateMetrics now propertyHistory), hasChanged)))"

text \<open>
  The loop \<open>for (const property of props)\<close> with its counters \<open>newChanges\<close> and
  \<open>totalTracked\<close>. \<open>clock k\<close> is the time \<open>updateMetrics\<close> reads for the listing at
  position \<open>k\<close> of the pass. An exception ends the loop; the result is the state reached
  and the exception, if any.
\<close>

fun snapshotLoop ::
  "int \<Rightarrow> (nat \<Rightarrow> int) \<Rightarrow> listing list
     \<Rightarrow> (string \<rightharpoonup> propertyHistory) \<times> nat \<times> nat
     \<Rightarrow> ((string \<rightharpoonup> propertyHistory) \<times> nat \<times> nat) \<times> error option" where
  "snapshotLoop ts clock [] st = (st, None)"
| "snapshotLoop ts clock (property # props) (bh, newChanges, totalTracked) =
     (case snapshotProperty ts (clock totalTracked) bh property of
        Inl e \<Rightarrow> ((bh, newChanges, totalTracked), Some e)
      | Inr (bh', hasChanged) \<Rightarrow>
          snapshotLoop ts clock props
            (bh', (if hasChanged then newChanges + 1 else newChanges), totalTracked + 1))"

declare snapshotLoop.simps(2) [simp del]

record snapshotResult =
  r_timestamp :: int
  r_totalTracked :: nat
  r_newChanges :: nat

text \<open>
  \<open>recordSnapshot(properties)\<close>. \<open>properties\<close> is \<open>None\<close> for a call without argument
  (or with \<open>null\<close>); an array is truthy even when empty. With no listing the method
  returns \<open>undefined\<close> (\<open>Inr None\<close>). An exception of the loop rejects the promise; the
  histories updated before it stay in memory and nothing is written. \<open>written\<close> tells
  whether the two \<open>fs.writeFile\<close> calls that follow the loop succeed; when one throws,
  the promise is rejected and the histories already updated in memory stay.
\<close>

definition recordSnapshot ::
  "listing list option \<Rightarrow> int \<Rightarrow> (nat \<Rightarrow> int) \<Rightarrow> bool \<Rightarrow> tracker
     \<Rightarrow> tracker \<times> (error + snapshotResult option)" where
  "recordSnapshot properties ts clock written t =
     (let props = (case properties of None \<Rightarrow> currentProperties t | Some ps \<Rightarrow> ps)
      in if props = [] then (t, Inr None)
         else
           (let ((bh, newChanges, totalTracked), thrown) =
                  snapshotLoop ts clock props (bidHistory t, 0, 0);
                t = t\<lparr>bidHistory := bh\<rparr>
            in case thrown of
                 Some e \<Rightarrow> (t, Inl e)
               | None \<Rightarrow>
                   if written
                   then (t, Inr (Some \<lparr>r_timestamp = ts, r_totalTracked = totalTracked,
                                          r_newChanges = newChanges\<rparr>))
                   else (t, Inl PersistenceError)))"


section \<open>Worker Unit (worker-scraper, runWorker)\<close>

text \<open>
  Strings are lists of 8-bit characters. \<open>parseFloat\<close> follows ECMAScript: leading white
  space is skipped, then the longest prefix that is a \<open>StrDecimalLiteral\<close> is read (an
  optional sign, then \<open>Infinity\<close>, or digits with an optional fraction and an optional
  exponent); the result is \<open>NaN\<close> when there is no such prefix. The value is exact.
\<close>

definition isWhiteSpace :: "char \<Rightarrow> bool" where
  "isWhiteSpace c = ((of_char c :: nat) \<in> {9, 10, 11, 12, 13, 32, 160})"

definition isDigit :: "char \<Rightarrow> bool" where
  "isDigit c = (48 \<le> (of_char c :: nat) \<and> (of_char c :: nat) \<le> 57)"

definition digitsValue :: "string \<Rightarrow> nat" where
  "digitsValue ds = foldl (\<lambda>a c. 10 * a + ((of_char c :: nat) - 48)) 0 ds"

definition startsWith :: "string \<Rightarrow> string \<Rightarrow> bool" where
  "startsWith s p = (take (length p) s = p)"

text \<open>
  The exponent part read from the text that follows the mantissa: \<open>e\<close> or \<open>E\<close>, an
  optional sign and at least one digit; \<open>0\<close> when the text does not start with one.
\<close>

definition exponentPart :: "string \<Rightarrow> int" where
  "exponentPart r =
     (case r of
        [] \<Rightarrow> 0
      | c # r1 \<Rightarrow>
          if c = CHR ''e'' \<or> c = CHR ''E'' then
            (case r1 of
               [] \<Rightarrow> 0
             | d # r2 \<Rightarrow>
                 if d = CHR ''-'' then
                   (if takeWhile isDigit r2 = [] then 0
                    else - int (digitsValue (takeWhile isDigit r2)))
                 else if d = CHR ''+'' then
                   (if takeWhile isDigit r2 = [] then 0
                    else int (digitsValue (takeWhile isDigit r2)))
                 else
                   (if takeWhile isDigit r1 = [] then 0
                    else int (digitsValue (takeWhile isDigit r1))))
          else 0)"

definition scale10 :: "rat \<Rightarrow> int \<Rightarrow> rat" where
  "scale10 m e = (if e \<ge> 0 then m * 10 ^ nat e else m / 10 ^ nat (- e))"

definition parseUnsigned :: "string \<Rightarrow> num" where
  "parseUnsigned s =
     (if startsWith s ''Infinity'' then Infinity True
      else
        (let ip = takeWhile isDigit s;
             r1 = dropWhile isDigit s;
             dot = (r1 \<noteq> [] \<and> hd r1 = CHR ''.'');
             fp = (if dot then takeWhile isDigit (tl r1) else []);
             r2 = (if dot then dropWhile isDigit (tl r1) else r1)
         in if ip = [] \<and> fp = [] then NaN
            else Fin (scale10
                   (of_nat (digitsValue ip) + of_nat (digitsValue fp) / 10 ^ length fp)
                   (exponentPart r2))))"

definition num_neg :: "num \<Rightarrow> num" where
  "num_neg n = (case n of NaN \<Rightarrow> NaN | Infinity s \<Rightarrow> Infinity (\<not> s) | Fin x \<Rightarrow> Fin (- x))"

definition parseFloat :: "string \<Rightarrow> num" where
  "parseFloat str =
     (let t = dropWhile isWhiteSpace str
      in case t of
           [] \<Rightarrow> NaN
         | c # r \<Rightarrow>
             if c = CHR ''-'' then num_neg (parseUnsigned r)
             else if c = CHR ''+'' then parseUnsigned r
             else parseUnsigned t)"

text \<open>
  The expression \<open>parseFloat((x || '').replace(/[$,]/g, '')) || 0\<close> that the worker applies
  to \<open>minimumBid\<close>, \<open>currentBid\<close> and \<open>sevValue\<close>.
\<close>

definition normalizeCurrency :: "string option \<Rightarrow> jsnum" where
  "normalizeCurrency x =
     js_or (Number (parseFloat
              (filter (\<lambda>c. c \<noteq> CHR ''$'' \<and> c \<noteq> CHR '','')
                 (if truthy_str x then the x else []))))
           (Number (Fin 0))"

text \<open>
  \<open>currentBid && currentBid !== '' && currentBid !== '$0.00'\<close>: a falsy first operand is
  the value of the whole expression.
\<close>

definition deriveHasBids :: "string option \<Rightarrow> jsval" where
  "deriveHasBids cb =
     (case cb of
        None \<Rightarrow> Nullish
      | Some s \<Rightarrow> if s = [] then Str [] else Bool (s \<noteq> ''$0.00''))"

text \<open>\<open>toLowerCase\<close> on 8-bit characters, and \<open>String.prototype.includes\<close>.\<close>

definition toLowerChar :: "char \<Rightarrow> char" where
  "toLowerChar c =
     (if 65 \<le> (of_char c :: nat) \<and> (of_char c :: nat) \<le> 90
      then ''abcdefghijklmnopqrstuvwxyz'' ! ((of_char c :: nat) - 65) else c)"

definition toLowerCase :: "string \<Rightarrow> string" where
  "toLowerCase s = map toLowerChar s"

fun includes_str :: "string \<Rightarrow> string \<Rightarrow> bool" where
  "includes_str [] p = (p = [])"
| "includes_str (c # cs) p = (startsWith (c # cs) p \<or> includes_str cs p)"

definition isRemoved :: "string option \<Rightarrow> bool" where
  "isRemoved st =
     (truthy_str st \<and>
      (includes_str (toLowerCase (the st)) ''removed'' \<or> st = Some ''Removed from Auction''))"

text \<open>\<open>id.toString()\<close> for an integer.\<close>

definition digitChar :: "nat \<Rightarrow> char" where
  "digitChar d = ''0123456789'' ! d"

fun natToString :: "nat \<Rightarrow> string" where
  "natToString n =
     (if n < 10 then [digitChar n]
      else natToString (n div 10) @ [digitChar (n mod 10)])"

declare natToString.simps [simp del]

definition toString :: "int \<Rightarrow> string" where
  "toString i = (if i < 0 then CHR ''-'' # natToString (nat (- i)) else natToString (nat i))"

text \<open>The messages the worker posts to its parent.\<close>

datatype message =
    Status string
  | Progress int int
  | Result listing
  | Error string
  | Complete int

text \<open>
  What the site answers for one ID: a step of the visit throws (\<open>page.goto\<close>, \<open>page.$\<close>
  or \<open>page.evaluate\<close>, with the message of the exception), the page shows the
  "property not found" text, or the field values that \<open>page.evaluate\<close> returns.
\<close>

datatype visit = Throws string | NotFound | Details pagedata

definition parseNumeric :: "int \<Rightarrow> pagedata \<Rightarrow> listing" where
  "parseNumeric id' propertyData =
     pagedata.extend (propertyData\<lparr>auctionId := Text (toString id')\<rparr>)
       (listing.fields
          (normalizeCurrency (minimumBid propertyData))
          (normalizeCurrency (currentBid propertyData))
          (normalizeCurrency (sevValue propertyData))
          (deriveHasBids (currentBid propertyData)))"

text \<open>
  One iteration of \<open>for (let id = startId; id <= endId; id++)\<close>: the messages posted
  for this ID. The pause after every tenth ID posts nothing.
\<close>

definition scrapeId :: "(int \<Rightarrow> visit) \<Rightarrow> int \<Rightarrow> int \<Rightarrow> int \<Rightarrow> message list" where
  "scrapeId site startId endId id' =
     (let progress = Progress id' (endId - startId + 1)
      in case site id' of
           Throws msg \<Rightarrow> [Error (''Failed to scrape '' @ toString id' @ '': '' @ msg), progress]
         | NotFound \<Rightarrow> [progress]
         | Details propertyData \<Rightarrow>
             if \<not> truthy_slot (auctionId propertyData) \<and> \<not> truthy_str (address propertyData)
             then [progress]
             else if isRemoved (status propertyData) then [progress]
             else [Result (parseNumeric id' propertyData), progress])"

function scrapeLoop :: "(int \<Rightarrow> visit) \<Rightarrow> int \<Rightarrow> int \<Rightarrow> int \<Rightarrow> message list" where
  "scrapeLoop site startId endId i =
     (if i \<le> endId
      then scrapeId site startId endId i @ scrapeLoop site startId endId (i + 1)
      else [])"
  by pat_completeness auto
termination
  by (relation "measure (\<lambda>(site, startId, endId, i). nat (endId + 1 - i))") auto

declare scrapeLoop.simps [simp del]

text \<open>
  \<open>runWorker\<close>: \<open>setup\<close> is \<open>Some msg\<close> when launching the browser or creating the context
  or the page throws; the outer handler then posts the error and rethrows. \<open>cleanup\<close>
  tells whether \<open>context.close()\<close> and \<open>browser.close()\<close> of the \<open>finally\<close> block succeed;
  when one throws, after the \<open>complete\<close> message, the promise is rejected as well. The
  second component is whether the worker ends normally: a rejected promise ends in
  \<open>process.exit(1)\<close>.
\<close>

definition runWorker ::
  "int \<Rightarrow> int \<Rightarrow> int \<Rightarrow> string option \<Rightarrow> bool \<Rightarrow> (int \<Rightarrow> visit) \<Rightarrow> message list \<times> bool" where
  "runWorker workerId startId endId setup cleanup site =
     (case setup of
        Some msg \<Rightarrow> ([Error msg], False)
      | None \<Rightarrow>
          ([Status (''Worker '' @ toString workerId @ '' started: '' @ toString startId
                    @ '' to '' @ toString endId)]
           @ scrapeLoop site startId endId startId
           @ [Complete workerId], cleanup))"



section \<open>Update Scheduler: urgency classification (update-scheduler, getUpdatePriority)\<close>

datatype priority = expired | immediate | urgent | regular | standard

text \<open>\<open>this.intervals\<close>, in milliseconds.\<close>

definition intervals :: "priority \<Rightarrow> int option" where
  "intervals p = (case p of
       immediate \<Rightarrow> Some (1 * 60 * 1000)
     | urgent \<Rightarrow> Some (5 * 60 * 1000)
     | regular \<Rightarrow> Some (10 * 60 * 1000)
     | standard \<Rightarrow> Some (60 * 60 * 1000)
     | expired \<Rightarrow> None)"

text \<open>
  \<open>new Date(closingTime)\<close> as Node evaluates it. For \<open>undefined\<close> the date is invalid
  and for \<open>null\<close> it is the epoch. For a string, the engine first tries the ISO format and then its legacy parser, which
  reads the text token by token. A word is a run of characters from \<open>A\<close> upwards other
  than white space; it is looked up among the parser's keywords by its first three
  characters, in lower case, a longer word being accepted for a month name only. A word
  that is no keyword makes the date invalid as soon as a number has been read before
  it. Text in parentheses is skipped by the parser, so the rule is applied to texts
  without parentheses only. For every text the rule does not reject, the instant is
  what \<open>engine\<close> gives (\<open>None\<close> for an Invalid Date). The rule is modelled from the
  behaviour of Node's parser, which is not part of the repository.
\<close>

definition isWordChar :: "char \<Rightarrow> bool" where
  "isWordChar c = (65 \<le> (of_char c :: nat) \<and> \<not> isWhiteSpace c)"

definition monthNames :: "string list" where
  "monthNames =
     [''jan'', ''feb'', ''mar'', ''apr'', ''may'', ''jun'',
      ''jul'', ''aug'', ''sep'', ''oct'', ''nov'', ''dec'']"

definition otherKeywords :: "string list" where
  "otherKeywords =
     [''am'', ''pm'', ''ut'', ''utc'', ''z'', ''gmt'', ''cdt'', ''cst'', ''edt'', ''est'',
      ''mdt'', ''mst'', ''pdt'', ''pst'', ''t'']"

definition isDateKeyword :: "string \<Rightarrow> bool" where
  "isDateKeyword w =
     (let l = toLowerCase w
      in take 3 l \<in> set monthNames \<or> (length l \<le> 3 \<and> l \<in> set otherKeywords))"

function garbageWord :: "bool \<Rightarrow> string \<Rightarrow> bool" where
  "garbageWord has_read_number [] = False"
| "garbageWord has_read_number (c # cs) =
     (if isWordChar c then
        (if \<not> isDateKeyword (c # takeWhile isWordChar cs) \<and> has_read_number then True
         else garbageWord has_read_number (dropWhile isWordChar cs))
      else garbageWord (has_read_number \<or> isDigit c) cs)"
  by pat_completeness auto
termination
  by (relation "measure (\<lambda>(n, s). length s)")
     (auto simp: length_dropWhile_le less_Suc_eq_le)

definition dateRejected :: "string \<Rightarrow> bool" where
  "dateRejected text = (CHR ''('' \<notin> set text \<and> garbageWord False text)"

definition newDate :: "(string \<Rightarrow> int option) \<Rightarrow> slot \<Rightarrow> int option" where
  "newDate engine closingTime =
     (case closingTime of
        Absent \<Rightarrow> None
      | NullValue \<Rightarrow> Some 0
      | Text text \<Rightarrow> if dateRejected text then None else engine text)"

text \<open>
  \<open>getUpdatePriority(closingTime)\<close>. \<open>now\<close> is the value of \<open>new Date()\<close> in milliseconds
  since the epoch. For an Invalid Date the difference with \<open>now\<close> is NaN, every
  comparison of the chain is false and the last branch is taken.
\<close>

definition getUpdatePriority ::
  "(string \<Rightarrow> int option) \<Rightarrow> int \<Rightarrow> slot \<Rightarrow> priority \<times> int option" where
  "getUpdatePriority engine now closingTime =
     (case newDate engine closingTime of
        None \<Rightarrow> (standard, intervals standard)
      | Some closing \<Rightarrow>
          (let hoursUntilClosing = (of_int (closing - now) :: rat) / (1000 * 60 * 60)
           in if hoursUntilClosing \<le> 0 then (expired, None)
              else if hoursUntilClosing \<le> 1 then (immediate, intervals immediate)
              else if hoursUntilClosing \<le> 3 then (urgent, intervals urgent)
              else if hoursUntilClosing \<le> 6 then (regular, intervals regular)
              else (standard, intervals standard)))"

text \<open>
  The grouping in \<open>scrapeAuctionData\<close>: every listing of the properties file is put in the
  group of the priority that \<open>getUpdatePriority(property.biddingCloses)\<close> gives.
\<close>

definition priorityGroups ::
  "(string \<Rightarrow> int option) \<Rightarrow> int \<Rightarrow> listing list \<Rightarrow> priority \<Rightarrow> listing list" where
  "priorityGroups engine now properties priority =
     filter (\<lambda>property. fst (getUpdatePriority engine now (biddingCloses property)) = priority)
       properties"


section \<open>Notions and example inputs used in the statements\<close>

text \<open>
  Message kinds, the error message expected for a visit, a site without listings, and a
  site whose page for the ID 250900005 cannot be loaded.
\<close>

fun isProgress :: "message \<Rightarrow> bool" where
  "isProgress (Progress c t) = True"
| "isProgress _ = False"

fun isResult :: "message \<Rightarrow> bool" where
  "isResult (Result d) = True"
| "isResult _ = False"

fun isError :: "message \<Rightarrow> bool" where
  "isError (Error e) = True"
| "isError _ = False"

fun errorOf :: "int \<Rightarrow> visit \<Rightarrow> message list" where
  "errorOf i (Throws msg) = [Error (''Failed to scrape '' @ toString i @ '': '' @ msg)]"
| "errorOf i _ = []"

definition notFoundSite :: "int \<Rightarrow> visit" where
  "notFoundSite i = NotFound"

definition timeoutSite :: "int \<Rightarrow> visit" where
  "timeoutSite i =
     (if i = 250900005 then Throws ''page.goto: Timeout 10000ms exceeded.'' else NotFound)"

text \<open>
  A detail page of a listing nobody has bid on (the site shows \<open>NONE\<close> as the current
  bid), and the site that serves one page for every ID.
\<close>

definition noBidPage :: pagedata where
  "noBidPage =
     \<lparr>parcelId = Some ''22012345'', address = Some ''123 MAIN'', city = Some ''DETROIT'',
      zip = Some ''48201'', legalDescription = None, sevValue = Some ''$10,000.00'',
      auctionId = Text ''250900001'', status = Some ''Active'',
      biddingCloses = Text ''9/15/2025 10:00:00 AM ET'', currentBid = Some ''NONE'',
      minimumBid = Some ''$500.00'', summerTax = None, winterTax = None, scrapedAt = 0\<rparr>"

definition siteOf :: "pagedata \<Rightarrow> int \<Rightarrow> visit" where
  "siteOf page i = Details page"

text \<open>
  A closing time as the auction site prints it, the same text without its zone suffix
  (as the dashboards of the repository clean it before parsing), and a date engine that
  reads the cleaned text as 17 September 2025, 13:15 UTC, and nothing else.
\<close>

definition siteClosingText :: string where
  "siteClosingText = ''9/17/2025 9:15:00 AM ET''"

definition cleanedClosingText :: string where
  "cleanedClosingText = ''9/17/2025 9:15:00 AM''"

definition exampleEngine :: "string \<Rightarrow> int option" where
  "exampleEngine text = (if text = cleanedClosingText then Some 1758114900000 else None)"

text \<open>
  Inputs for concrete runs of the tracker: a clock that always reads the same time, and a
  listing with the given ID, current bid, minimum bid and closing-time text (the tracker
  reads the numeric slots only, so the bid texts are left out).
\<close>

definition fixedClock :: "int \<Rightarrow> nat \<Rightarrow> int" where
  "fixedClock t k = t"

definition exampleListing :: "string \<Rightarrow> jsnum \<Rightarrow> jsnum \<Rightarrow> slot \<Rightarrow> listing" where
  "exampleListing aid cur minb closes =
     \<lparr>parcelId = Some ''22012345'', address = Some ''123 MAIN'', city = Some ''DETROIT'',
      zip = Some ''48201'', legalDescription = None, sevValue = Some ''$10,000.00'',
      auctionId = Text aid, status = Some ''Active'', biddingCloses = closes,
      currentBid = None, minimumBid = None, summerTax = None, winterTax = None,
      scrapedAt = 0,
      minimumBidNumeric = minb, currentBidNumeric = cur,
      sevValueNumeric = Number (Fin 10000), hasBids = Bool (truthy cur)\<rparr>"

text \<open>
  A deployment of the tracker: the \<open>BidTracker\<close> object of the running process and the
  object held by the history file (\<open>None\<close> when there is no file). \<open>saveBidHistory\<close>
  writes \<open>JSON.stringify(this.bidHistory)\<close>, which keeps every key; reading the file back
  gives \<open>null\<close> for every number that is \<open>NaN\<close> or infinite (\<open>totalIncrease\<close>, which none of
  the functions above reads, is left as written).
\<close>

record deployment =
  process :: tracker
  historyFile :: "(string \<rightharpoonup> propertyHistory) option"

definition jsonNumber :: "jsnum \<Rightarrow> jsnum" where
  "jsonNumber v = (case v of Number NaN \<Rightarrow> Null | Number (Infinity s) \<Rightarrow> Null | _ \<Rightarrow> v)"

definition readSnapshot :: "snapshot \<Rightarrow> snapshot" where
  "readSnapshot s =
     s\<lparr>snap_currentBid := jsonNumber (snap_currentBid s),
       snap_minimumBid := jsonNumber (snap_minimumBid s),
       change := jsonNumber (change s),
       changePercent := jsonNumber (changePercent s)\<rparr>"

definition readBack :: "propertyHistory \<Rightarrow> propertyHistory" where
  "readBack ph =
     ph\<lparr>history := map readSnapshot (history ph),
        metrics := (metrics ph)\<lparr>
          totalIncreasePercent := jsonNumber (totalIncreasePercent (metrics ph)),
          firstBid := jsonNumber (firstBid (metrics ph))\<rparr>\<rparr>"

definition readFile :: "(string \<rightharpoonup> propertyHistory) \<Rightarrow> (string \<rightharpoonup> propertyHistory)" where
  "readFile stored = (\<lambda>k. map_option readBack (stored k))"

text \<open>
  The operations of a deployment: the constructor (a new process), \<open>loadBidHistory\<close>
  (\<open>readable\<close> tells whether the file, if present, can be read and parsed; a write that
  failed may have left it unreadable), \<open>loadCurrentProperties\<close>, and \<open>recordSnapshot()\<close>
  called without argument, as every caller in the repository does. The history file is
  replaced when \<open>recordSnapshot\<close> reaches \<open>saveBidHistory\<close>, its last step, and the write
  succeeds. \<open>initialize()\<close> is \<open>loadBidHistory\<close> followed by \<open>loadCurrentProperties\<close>.
\<close>

datatype operation =
    Construct
  | LoadHistory bool
  | Load "listing list option"
  | Snapshot int "nat \<Rightarrow> int" bool

fun exec :: "operation \<Rightarrow> deployment \<Rightarrow> deployment" where
  "exec Construct s = s\<lparr>process := BidTracker\<rparr>"
| "exec (LoadHistory readable) s =
     s\<lparr>process :=
         loadBidHistory (if readable then map_option readFile (historyFile s) else None)
           (process s)\<rparr>"
| "exec (Load fl) s = s\<lparr>process := loadCurrentProperties fl (process s)\<rparr>"
| "exec (Snapshot ts clock written) s =
     (case recordSnapshot None ts clock written (process s) of
        (t, Inr (Some r)) \<Rightarrow> \<lparr>process = t, historyFile = Some (bidHistory t)\<rparr>
      | (t, _) \<Rightarrow> \<lparr>process = t, historyFile = historyFile s\<rparr>)"

declare exec.simps(4) [simp del]

definition run :: "operation list \<Rightarrow> deployment \<Rightarrow> deployment" where
  "run ops s = foldl (\<lambda>s operation. exec operation s) s ops"

definition deploy :: "(string \<rightharpoonup> propertyHistory) option \<Rightarrow> deployment" where
  "deploy file = \<lparr>process = BidTracker, historyFile = file\<rparr>"

definition initialize :: "bool \<Rightarrow> listing list option \<Rightarrow> operation list" where
  "initialize readable fl = [LoadHistory readable, Load fl]"

text \<open>
  The listings of all properties files loaded by a sequence of operations, and the keys
  of a history file.
\<close>

fun loaded :: "operation list \<Rightarrow> listing list" where
  "loaded [] = []"
| "loaded (Load (Some fl) # ops) = fl @ loaded ops"
| "loaded (_ # ops) = loaded ops"

definition fileKeys :: "(string \<rightharpoonup> propertyHistory) option \<Rightarrow> string set" where
  "fileKeys file = (case file of None \<Rightarrow> {} | Some stored \<Rightarrow> dom stored)"

fun isSnapshot :: "operation \<Rightarrow> bool" where
  "isSnapshot (Snapshot ts clock written) = True"
| "isSnapshot _ = False"

text \<open>
  The bid amount a pass records for a listing, \<open>currentBidNumeric || minimumBidNumeric\<close>;
  whether the bid of snapshot \<open>i\<close> differs from the one before it; and the number of
  adjacent pairs of snapshots whose bids differ.
\<close>

definition effectiveBid :: "listing \<Rightarrow> jsnum" where
  "effectiveBid p = js_or (currentBidNumeric p) (minimumBidNumeric p)"

definition bidChangedAt :: "snapshot list \<Rightarrow> nat \<Rightarrow> bool" where
  "bidChangedAt h i = strict_neq (snap_currentBid (h ! i)) (snap_currentBid (h ! (i - 1)))"

definition adjacentChanges :: "snapshot list \<Rightarrow> nat" where
  "adjacentChanges h = length (filter (bidChangedAt h) [1..<length h])"

text \<open>
  The parts of the loop body of \<open>recordSnapshot\<close>, named for the statements below: whether
  the body throws, the history it works on, its \<open>hasChanged\<close>, the snapshot it appends,
  and the histories it leaves.
\<close>

definition throwsFor :: "(string \<rightharpoonup> propertyHistory) \<Rightarrow> listing \<Rightarrow> bool" where
  "throwsFor bh p =
     (bh (propertyKey (auctionId p)) = None
      \<and> propertyKey (auctionId p) \<in> set prototypeMembers)"

definition entryFor :: "(string \<rightharpoonup> propertyHistory) \<Rightarrow> listing \<Rightarrow> propertyHistory" where
  "entryFor bh p =
     (case bh (propertyKey (auctionId p)) of None \<Rightarrow> newHistory p | Some ph \<Rightarrow> ph)"

definition changedFor :: "propertyHistory \<Rightarrow> listing \<Rightarrow> bool" where
  "changedFor ph p =
     (history ph = [] \<or> strict_neq (snap_currentBid (last (history ph))) (effectiveBid p))"

definition snapshotFor :: "int \<Rightarrow> propertyHistory \<Rightarrow> listing \<Rightarrow> snapshot" where
  "snapshotFor ts ph p =
     (let base = \<lparr>timestamp = ts,
                  snap_currentBid = effectiveBid p,
                  snap_hasBids = (if truthy_val (hasBids p) then hasBids p else Bool False),
                  snap_minimumBid = minimumBidNumeric p,
                  snap_status = status p,
                  change = Undefined,
                  changePercent = Undefined\<rparr>;
          l = snap_currentBid (last (history ph))
      in if history ph \<noteq> [] \<and> changedFor ph p
         then base\<lparr>change := Number (num_sub (ToNumber (effectiveBid p)) (ToNumber l)),
                   changePercent :=
                     (if num_gt (ToNumber l) (Fin 0)
                      then Number (num_mul
                             (num_div (num_sub (ToNumber (effectiveBid p)) (ToNumber l))
                                      (ToNumber l))
                             (Fin 100))
                      else Number (Fin 0))\<rparr>
         else base)"

definition stepMap ::
  "int \<Rightarrow> int \<Rightarrow> (string \<rightharpoonup> propertyHistory) \<Rightarrow> listing \<Rightarrow> (string \<rightharpoonup> propertyHistory)" where
  "stepMap ts now bh p =
     bh(propertyKey (auctionId p) \<mapsto>
          updateMetrics now ((entryFor bh p)\<lparr>history :=
             history (entryFor bh p) @ [snapshotFor ts (entryFor bh p) p]\<rparr>))"

text \<open>
  A snapshot of that listing with the given time, bid, \<open>change\<close> and \<open>changePercent\<close>,
  and a history entry for it.
\<close>

definition exampleSnapshot :: "int \<Rightarrow> rat \<Rightarrow> jsnum \<Rightarrow> jsnum \<Rightarrow> snapshot" where
  "exampleSnapshot ts bid ch pct =
     \<lparr>timestamp = ts, snap_currentBid = Number (Fin bid), snap_hasBids = Bool True,
      snap_minimumBid = Number (Fin 500), snap_status = Some ''Active'',
      change = ch, changePercent = pct\<rparr>"

definition exampleEntry :: "string \<Rightarrow> snapshot list \<Rightarrow> metrics \<Rightarrow> propertyHistory" where
  "exampleEntry aid h m =
     \<lparr>h_auctionId = Text aid, h_address = Some ''123 MAIN'', h_city = Some ''DETROIT'',
      history = h, metrics = m\<rparr>"

text \<open>
  A history of fourteen snapshots: twelve bid changes, the first of 25%, between time 0
  and 30 minutes before the end of the second day, and a last snapshot without change at
  the end of the second day. \<open>changedSnapshot\<close> fills \<open>change\<close> and \<open>changePercent\<close> as
  \<open>recordSnapshot\<close> does for a positive previous bid.
\<close>

definition changedSnapshot :: "int \<Rightarrow> rat \<Rightarrow> rat \<Rightarrow> snapshot" where
  "changedSnapshot ts prev bid =
     exampleSnapshot ts bid (Number (Fin (bid - prev))) (Number (Fin ((bid - prev) / prev * 100)))"

definition busyHistory :: "snapshot list" where
  "busyHistory =
     [exampleSnapshot 0 1000 Undefined Undefined,
      changedSnapshot 14250000 1000 1250,
      changedSnapshot 28500000 1250 1280,
      changedSnapshot 42750000 1280 1310,
      changedSnapshot 57000000 1310 1340,
      changedSnapshot 71250000 1340 1370,
      changedSnapshot 85500000 1370 1400,
      changedSnapshot 99750000 1400 1430,
      changedSnapshot 114000000 1430 1460,
      changedSnapshot 128250000 1460 1490,
      changedSnapshot 142500000 1490 1520,
      changedSnapshot 156750000 1520 1550,
      changedSnapshot 171000000 1550 1600,
      exampleSnapshot 172800000 1600 Undefined Undefined]"

definition freshMetrics :: "jsnum \<Rightarrow> metrics" where
  "freshMetrics b =
     \<lparr>totalChanges = 0, bidVelocity = 0, lastChangeHours = None, totalIncrease = Fin 0,
      totalIncreasePercent = Undefined, firstBid = b, competitionScore = 0\<rparr>"

text \<open>
  Two runs of the tracker from the constructor's state. In the first, the same listing
  (bid 600) is recorded twice, one day apart. In the second, the listing is recorded
  with bid 500 and then twice with bid 600, at intervals of one day; the second and third
  passes receive the same input.
\<close>

definition quietListing :: listing where
  "quietListing =
     exampleListing ''250900001'' (Number (Fin 600)) (Number (Fin 500))
       (Text ''9/15/2025 10:00:00 AM ET'')"

definition quietTracker1 :: tracker where
  "quietTracker1 = fst (recordSnapshot (Some [quietListing]) 0 (fixedClock 0) True BidTracker)"

definition quietTracker2 :: tracker where
  "quietTracker2 =
     fst (recordSnapshot (Some [quietListing]) 86400000 (fixedClock 86460000) True
            quietTracker1)"

definition openingListing :: listing where
  "openingListing =
     exampleListing ''250900001'' (Number (Fin 500)) (Number (Fin 500))
       (Text ''9/15/2025 10:00:00 AM ET'')"

definition risingTracker0 :: tracker where
  "risingTracker0 =
     fst (recordSnapshot (Some [openingListing]) 0 (fixedClock 0) True BidTracker)"

definition risingTracker1 :: tracker where
  "risingTracker1 =
     fst (recordSnapshot (Some [quietListing]) 86400000 (fixedClock 86400000) True
            risingTracker0)"

definition risingTracker2 :: tracker where
  "risingTracker2 =
     fst (recordSnapshot (Some [quietListing]) 172800000 (fixedClock 172800000) True
            risingTracker1)"

text \<open>
  A listing with a current bid of \<open>0\<close>, a bundle listing (no closing time), a listing
  with the closing time of the first batch as the site prints it, and a listing whose ID
  is the name of a member of \<open>Object.prototype\<close>.
\<close>

definition zeroBidListing :: listing where
  "zeroBidListing =
     exampleListing ''250900002'' (Number (Fin 0)) (Number (Fin 500))
       (Text ''9/15/2025 10:00:00 AM ET'')"

definition bundleListing :: listing where
  "bundleListing =
     exampleListing ''250900003'' (Number (Fin 0)) (Number (Fin 9000)) (Text ''N/A'')"

definition firstBatchListing :: listing where
  "firstBatchListing =
     exampleListing ''250900004'' (Number (Fin 600)) (Number (Fin 500)) (Text siteClosingText)"

definition constructorListing :: listing where
  "constructorListing =
     exampleListing ''constructor'' (Number (Fin 600)) (Number (Fin 500))
       (Text ''9/15/2025 10:00:00 AM ET'')"

text \<open>
  Notions for the statements about repeated passes: the recorded bid of a listing is a
  finite number; the snapshot a pass appends for a listing whose bid has not changed;
  the percentage \<open>updateMetrics\<close> stores as \<open>totalIncreasePercent\<close>; and the stored history
  of a listing is up to date with it, that is, it is non-empty, its last snapshot carries
  the listing's bid, and \<open>totalChanges\<close>, \<open>totalIncrease\<close> and, from two snapshots on,
  \<open>totalIncreasePercent\<close> agree with the snapshots.
\<close>

definition finiteBid :: "listing \<Rightarrow> bool" where
  "finiteBid p = (case effectiveBid p of Number (Fin x) \<Rightarrow> True | _ \<Rightarrow> False)"

definition unchangedSnapshot :: "int \<Rightarrow> listing \<Rightarrow> snapshot" where
  "unchangedSnapshot ts p =
     \<lparr>timestamp = ts,
      snap_currentBid = effectiveBid p,
      snap_hasBids = (if truthy_val (hasBids p) then hasBids p else Bool False),
      snap_minimumBid = minimumBidNumeric p,
      snap_status = status p,
      change = Undefined,
      changePercent = Undefined\<rparr>"

definition increasePercent :: "jsnum \<Rightarrow> jsnum \<Rightarrow> jsnum" where
  "increasePercent firstB lastB =
     (if num_gt (ToNumber firstB) (Fin 0)
      then Number (num_mul
             (num_div (num_sub (ToNumber lastB) (ToNumber firstB)) (ToNumber firstB))
             (Fin 100))
      else Number (Fin 0))"

definition settled :: "(string \<rightharpoonup> propertyHistory) \<Rightarrow> listing \<Rightarrow> bool" where
  "settled bh p =
     (case bh (propertyKey (auctionId p)) of
        None \<Rightarrow> False
      | Some ph \<Rightarrow>
          history ph \<noteq> []
          \<and> snap_currentBid (last (history ph)) = effectiveBid p
          \<and> totalChanges (metrics ph) = adjacentChanges (history ph)
          \<and> totalIncrease (metrics ph)
              = num_sub (ToNumber (effectiveBid p))
                        (ToNumber (snap_currentBid (hd (history ph))))
          \<and> (2 \<le> length (history ph) \<longrightarrow>
               totalIncreasePercent (metrics ph)
                 = increasePercent (snap_currentBid (hd (history ph))) (effectiveBid p)))"

definition nonemptyHistories :: "(string \<rightharpoonup> propertyHistory) \<Rightarrow> bool" where
  "nonemptyHistories bh = (\<forall>x ph. bh x = Some ph \<longrightarrow> history ph \<noteq> [])"

text \<open>
  What a pass at time \<open>ts\<close> keeps for a listing: a history existed before, whose last
  snapshot carries the listing's bid; the pass appends the snapshot without change
  fields and nothing else; and the identification, \<open>firstBid\<close>, \<open>totalChanges\<close>,
  \<open>totalIncrease\<close> and \<open>totalIncreasePercent\<close> are the same (\<open>totalIncreasePercent\<close> is
  first computed when the history reaches two snapshots, and is then \<open>0\<close>).
\<close>

definition bidMetricsKept ::
  "int \<Rightarrow> (string \<rightharpoonup> propertyHistory) \<Rightarrow> (string \<rightharpoonup> propertyHistory) \<Rightarrow> listing \<Rightarrow> bool" where
  "bidMetricsKept ts bh bh' p =
     (case (bh (propertyKey (auctionId p)), bh' (propertyKey (auctionId p))) of
        (Some e, Some e') \<Rightarrow>
          history e' = history e @ [unchangedSnapshot ts p]
          \<and> snap_currentBid (last (history e)) = effectiveBid p
          \<and> h_auctionId e' = h_auctionId e
          \<and> h_address e' = h_address e
          \<and> h_city e' = h_city e
          \<and> firstBid (metrics e') = firstBid (metrics e)
          \<and> totalChanges (metrics e') = totalChanges (metrics e)
          \<and> totalIncrease (metrics e') = totalIncrease (metrics e)
          \<and> totalIncreasePercent (metrics e')
              = (if 2 \<le> length (history e) then totalIncreasePercent (metrics e)
                 else Number (Fin 0))
      | _ \<Rightarrow> False)"

text \<open>Two listings with different IDs, for a pass over more than one listing.\<close>

definition twoListings :: "listing list" where
  "twoListings = [quietListing, zeroBidListing]"

text \<open>
  A scheduler run on a new deployment whose properties file holds a bundle listing and
  an individual listing: the tracker is initialized, then a snapshot is recorded.
\<close>

definition exampleRun :: "operation list" where
  "exampleRun =
     initialize True (Some [bundleListing, quietListing]) @ [Snapshot 0 (fixedClock 0) True]"


section \<open>Properties of the Scrape Coordinator\<close>

lemma rangePerWorker_pos:
  assumes "startId \<le> endId" "1 \<le> workerCount"
  shows "1 \<le> rangePerWorker startId endId workerCount"
proof -
  have "(0::rat) < of_int (endId - startId + 1) / of_int workerCount"
    using assms by simp
  then show ?thesis
    unfolding rangePerWorker_def by linarith
qed

lemma rangePerWorker_covers:
  assumes "1 \<le> workerCount"
  shows "endId - startId + 1 \<le> workerCount * rangePerWorker startId endId workerCount"
proof -
  let ?n = "endId - startId + 1"
  let ?r = "rangePerWorker startId endId workerCount"
  have w: "(0::rat) < of_int workerCount" using assms by simp
  have "(of_int ?n :: rat) / of_int workerCount \<le> of_int ?r"
    unfolding rangePerWorker_def by (rule le_of_int_ceiling)
  then have "(of_int ?n :: rat) \<le> of_int ?r * of_int workerCount"
    using w by (simp add: pos_divide_le_eq)
  then have "(of_int ?n :: rat) \<le> of_int (workerCount * ?r)"
    by (simp add: mult.commute)
  then show ?thesis by (simp only: of_int_le_iff)
qed

text \<open>
  From counter \<open>i\<close> on, the workers launched by the loop are given, in order, exactly the
  IDs from \<open>startId + i * rpw\<close> to \<open>endId\<close>.
\<close>

lemma launchLoop_concat:
  assumes "1 \<le> rpw" "endId < startId + workerCount * rpw" "0 \<le> i"
  shows "concat (map job_ids (launchLoop startId endId workerCount rpw i))
           = [startId + i * rpw .. endId]"
  using assms
proof (induction startId endId workerCount rpw i rule: launchLoop.induct)
  case (1 startId endId workerCount rpw i)
  let ?ws = "startId + i * rpw"
  show ?case
  proof (cases "i < workerCount")
    case False
    then have "workerCount * rpw \<le> i * rpw"
      using "1.prems" by (intro mult_right_mono) auto
    then have "endId < ?ws" using "1.prems" by linarith
    then show ?thesis using False by (subst launchLoop.simps) simp
  next
    case True
    show ?thesis
    proof (cases "?ws > endId")
      case True
      then show ?thesis using \<open>i < workerCount\<close> by (subst launchLoop.simps) simp
    next
      case False
      have nxt: "startId + (i + 1) * rpw = ?ws + rpw" by (simp add: algebra_simps)
      have IH: "concat (map job_ids (launchLoop startId endId workerCount rpw (i + 1)))
                  = [?ws + rpw .. endId]"
        using "1.IH"[OF True refl refl False] "1.prems" nxt by simp
      have "[?ws .. min (?ws + rpw - 1) endId] @ [?ws + rpw .. endId] = [?ws .. endId]"
      proof (cases "?ws + rpw - 1 \<le> endId")
        case True
        then have "[?ws .. endId] = [?ws .. ?ws + rpw - 1] @ [?ws + rpw - 1 + 1 .. endId]"
          using "1.prems" by (intro upto_split2) auto
        then show ?thesis using True by (simp add: min_def)
      next
        case False
        then show ?thesis by (simp add: min_def)
      qed
      then show ?thesis
        using True False IH by (subst launchLoop.simps) (simp add: Let_def job_ids_def)
    qed
  qed
qed

lemma count_list_distinct:
  "distinct xs \<Longrightarrow> count_list xs x = (if x \<in> set xs then 1 else 0)"
  by (induction xs) auto

lemma count_upto: "count_list [a..b] x = (if a \<le> x \<and> x \<le> b then 1 else 0)"
  using count_list_distinct[of "[a..b]" x] by simp

lemma jobs_count:
  "length (filter (job_has x) js) = count_list (concat (map job_ids js)) x"
proof (induction js)
  case Nil
  show ?case by simp
next
  case (Cons j js)
  obtain w s e where j: "j = (w, s, e)" by (cases j)
  show ?case using Cons by (simp add: j job_has_def job_ids_def count_upto)
qed

text \<open>
  C5. For \<open>startId \<le> endId\<close> and at least one worker, the sub-ranges handed to the
  workers, read in worker order, are exactly the IDs \<open>startId, ..., endId\<close> in ascending
  order: the sub-ranges are contiguous, leave no gap and do not overlap. Equivalently,
  every ID of the range lies in the sub-range of exactly one worker and every other ID
  in none.
\<close>

theorem partition_covers_range:
  assumes "startId \<le> endId" "1 \<le> workerCount"
  shows "concat (map job_ids (scrapeRange_jobs startId endId workerCount)) = [startId..endId]
       \<and> (\<forall>x. length (filter (job_has x) (scrapeRange_jobs startId endId workerCount))
              = (if startId \<le> x \<and> x \<le> endId then 1 else 0))"
proof -
  let ?rpw = "rangePerWorker startId endId workerCount"
  have c: "concat (map job_ids (scrapeRange_jobs startId endId workerCount)) = [startId..endId]"
    unfolding scrapeRange_jobs_def
    using launchLoop_concat[of ?rpw endId startId workerCount 0]
      rangePerWorker_pos[OF assms] rangePerWorker_covers[OF assms(2), of endId startId]
    by simp
  show ?thesis using c by (simp add: jobs_count count_upto)
qed

theorem partition_covers_range_witness:
  "(250900000::int) \<le> 250900029 \<and> (1::int) \<le> 3
   \<and> scrapeRange_jobs 250900000 250900029 3
       = [(0, 250900000, 250900009), (1, 250900010, 250900019), (2, 250900020, 250900029)]
   \<and> concat (map job_ids (scrapeRange_jobs 250900000 250900029 3)) = [250900000..250900029]
   \<and> (\<forall>x. length (filter (job_has x) (scrapeRange_jobs 250900000 250900029 3))
          = (if 250900000 \<le> x \<and> x \<le> 250900029 then 1 else 0))"
proof -
  have jobs: "scrapeRange_jobs 250900000 250900029 3
       = [(0, 250900000, 250900009), (1, 250900010, 250900019), (2, 250900020, 250900029)]"
    by (simp add: scrapeRange_jobs_def rangePerWorker_def launchLoop.simps)
  show ?thesis
    using partition_covers_range[of 250900000 250900029 3] jobs by simp
qed


section \<open>Properties of the Update Scheduler\<close>

text \<open>
  For a closing time that the date engine reads as the instant \<open>c\<close>, the classification
  depends on the time remaining \<open>c - now\<close> only: \<open>expired\<close> when it is at most 0,
  \<open>immediate\<close> when at most one hour, \<open>urgent\<close> when at most three hours, \<open>regular\<close> when
  at most six hours and \<open>standard\<close> otherwise, each with its polling interval. Times are
  in milliseconds.
\<close>

lemma getUpdatePriority_parsed:
  assumes "newDate engine closingTime = Some c"
  shows "getUpdatePriority engine now closingTime =
     (if c - now \<le> 0 then (expired, None)
      else if c - now \<le> 3600000 then (immediate, Some 60000)
      else if c - now \<le> 3 * 3600000 then (urgent, Some 300000)
      else if c - now \<le> 6 * 3600000 then (regular, Some 600000)
      else (standard, Some 3600000))"
proof -
  have h: "((of_int x :: rat) / (1000 * 60 * 60) \<le> of_int k) = (x \<le> k * 3600000)" for x k :: int
  proof -
    have "((of_int x :: rat) / (1000 * 60 * 60) \<le> of_int k)
            = ((of_int x :: rat) \<le> of_int (k * 3600000))"
      by (simp add: divide_le_eq)
    then show ?thesis by (simp only: of_int_le_iff)
  qed
  show ?thesis
    using h[of "c - now" 0] h[of "c - now" 1] h[of "c - now" 3] h[of "c - now" 6]
    by (simp add: getUpdatePriority_def assms intervals_def Let_def)
qed

lemma getUpdatePriority_invalid:
  "newDate engine closingTime = None
     \<Longrightarrow> getUpdatePriority engine now closingTime = (standard, Some 3600000)"
  by (simp add: getUpdatePriority_def intervals_def)

text \<open>Words that follow a number: the suffix \<open>ET\<close> is not a keyword of the parser.\<close>

lemma takeWhile_before:
  "\<not> P y \<Longrightarrow> takeWhile P (xs @ y # ys) = takeWhile P xs"
  by (induction xs) simp_all

lemma dropWhile_before:
  "\<not> P y \<Longrightarrow> dropWhile P (xs @ y # ys) = dropWhile P xs @ y # ys"
  by (induction xs) simp_all

lemma dropWhile_keeps:
  "x \<in> set xs \<Longrightarrow> \<not> P x \<Longrightarrow> x \<in> set (dropWhile P xs)"
  by (induction xs) auto

lemma digit_not_word: "isDigit c \<Longrightarrow> \<not> isWordChar c"
  by (simp add: isDigit_def isWordChar_def)

lemma space_not_word: "\<not> isWordChar CHR '' ''"
  by (simp add: isWordChar_def)

lemma garbageWord_ET: "garbageWord True '' ET''"
  by (simp add: isWordChar_def isWhiteSpace_def isDigit_def isDateKeyword_def toLowerCase_def
        toLowerChar_def monthNames_def otherKeywords_def)

lemma garbageWord_zone_suffix:
  "seen \<or> (\<exists>c\<in>set d. isDigit c) \<Longrightarrow> garbageWord seen (d @ '' ET'')"
proof (induction "length d" arbitrary: d seen rule: less_induct)
  case less
  show ?case
  proof (cases d)
    case Nil
    then have "seen" using less.prems by simp
    then show ?thesis using Nil garbageWord_ET by simp
  next
    case (Cons c cs)
    show ?thesis
    proof (cases "isWordChar c")
      case True
      have nd: "\<not> isDigit c" using True digit_not_word by blast
      have tw: "takeWhile isWordChar (cs @ '' ET'') = takeWhile isWordChar cs"
        using takeWhile_before[of isWordChar "CHR '' ''" cs "''ET''"] space_not_word by simp
      have dw: "dropWhile isWordChar (cs @ '' ET'') = dropWhile isWordChar cs @ '' ET''"
        using dropWhile_before[of isWordChar "CHR '' ''" cs "''ET''"] space_not_word by simp
      have shorter: "length (dropWhile isWordChar cs) < length d"
        using Cons length_dropWhile_le[of isWordChar cs] by simp
      have pre: "seen \<or> (\<exists>x\<in>set (dropWhile isWordChar cs). isDigit x)"
      proof (cases seen)
        case True
        then show ?thesis by simp
      next
        case False
        then obtain x where x: "x \<in> set d" "isDigit x" using less.prems by auto
        then have "x \<in> set cs" using Cons nd by auto
        then have "x \<in> set (dropWhile isWordChar cs)"
          using x(2) digit_not_word by (intro dropWhile_keeps) auto
        then show ?thesis using x(2) by blast
      qed
      have rest: "garbageWord seen (dropWhile isWordChar cs @ '' ET'')"
        by (rule less.hyps[OF shorter pre])
      have "garbageWord seen (c # (cs @ '' ET''))
              = (if \<not> isDateKeyword (c # takeWhile isWordChar (cs @ '' ET'')) \<and> seen then True
                 else garbageWord seen (dropWhile isWordChar (cs @ '' ET'')))"
        using True by (simp only: garbageWord.simps if_True)
      then have "garbageWord seen (c # (cs @ '' ET''))"
        unfolding tw dw using rest by simp
      then show ?thesis using Cons by simp
    next
      case False
      have pre: "(seen \<or> isDigit c) \<or> (\<exists>x\<in>set cs. isDigit x)"
        using less.prems Cons by auto
      have rest: "garbageWord (seen \<or> isDigit c) (cs @ '' ET'')"
        by (rule less.hyps[OF _ pre]) (simp add: Cons)
      show ?thesis using Cons False rest by simp
    qed
  qed
qed

text \<open>
  C7. The scheduler passes the closing-time text of a listing to \<open>new Date\<close> as the site
  prints it. For every such text that contains a digit and ends with the zone suffix
  \<open>ET\<close>, the date is invalid, so whatever the current time is, the classification is
  \<open>standard\<close> with the hourly interval, never \<open>expired\<close>, \<open>immediate\<close>, \<open>urgent\<close> or
  \<open>regular\<close>, and a listing with that closing time is put in the \<open>standard\<close> group.
\<close>

theorem closing_text_with_zone_suffix:
  assumes "\<exists>c\<in>set d. isDigit c" and "CHR ''('' \<notin> set d"
  shows "newDate engine (Text (d @ '' ET'')) = None
       \<and> getUpdatePriority engine now (Text (d @ '' ET'')) = (standard, Some 3600000)
       \<and> (biddingCloses property = Text (d @ '' ET'') \<longrightarrow>
            priorityGroups engine now [property] priority
              = (if priority = standard then [property] else []))"
proof -
  have g: "garbageWord False (d @ '' ET'')"
    using assms(1) by (intro garbageWord_zone_suffix) simp
  have r: "dateRejected (d @ '' ET'')"
    using g assms(2) by (simp add: dateRejected_def)
  have n: "newDate engine (Text (d @ '' ET'')) = None"
    using r by (simp add: newDate_def)
  show ?thesis
    using n getUpdatePriority_invalid[OF n, of now] by (auto simp: priorityGroups_def)
qed

text \<open>
  The closing time printed by the site for the first batch, 45 minutes, 2 hours and
  5 hours before that time and one minute after it: the classification is \<open>standard\<close>
  each time, whereas the same text without its zone suffix is classified \<open>immediate\<close>,
  \<open>urgent\<close>, \<open>regular\<close> and \<open>expired\<close>.
\<close>

theorem closing_text_with_zone_suffix_witness:
  "CHR ''9'' \<in> set cleanedClosingText \<and> isDigit CHR ''9''
   \<and> CHR ''('' \<notin> set cleanedClosingText
   \<and> siteClosingText = cleanedClosingText @ '' ET''
   \<and> getUpdatePriority exampleEngine (1758114900000 - 45 * 60000) (Text siteClosingText)
       = (standard, Some 3600000)
   \<and> getUpdatePriority exampleEngine (1758114900000 - 2 * 3600000) (Text siteClosingText)
       = (standard, Some 3600000)
   \<and> getUpdatePriority exampleEngine (1758114900000 - 5 * 3600000) (Text siteClosingText)
       = (standard, Some 3600000)
   \<and> getUpdatePriority exampleEngine (1758114900000 + 60000) (Text siteClosingText)
       = (standard, Some 3600000)
   \<and> getUpdatePriority exampleEngine (1758114900000 - 45 * 60000) (Text cleanedClosingText)
       = (immediate, Some 60000)
   \<and> getUpdatePriority exampleEngine (1758114900000 - 2 * 3600000) (Text cleanedClosingText)
       = (urgent, Some 300000)
   \<and> getUpdatePriority exampleEngine (1758114900000 - 5 * 3600000) (Text cleanedClosingText)
       = (regular, Some 600000)
   \<and> getUpdatePriority exampleEngine (1758114900000 + 60000) (Text cleanedClosingText)
       = (expired, None)
   \<and> biddingCloses firstBatchListing = Text siteClosingText
   \<and> priorityGroups exampleEngine (1758114900000 - 45 * 60000) [firstBatchListing] standard
       = [firstBatchListing]
   \<and> priorityGroups exampleEngine (1758114900000 - 45 * 60000) [firstBatchListing] immediate
       = []"
proof -
  have a9: "CHR ''9'' \<in> set cleanedClosingText" "isDigit CHR ''9''"
    by (simp_all add: cleanedClosingText_def isDigit_def)
  then have a: "\<exists>c\<in>set cleanedClosingText. isDigit c" by blast
  have b: "CHR ''('' \<notin> set cleanedClosingText"
    by (simp add: cleanedClosingText_def)
  have s: "siteClosingText = cleanedClosingText @ '' ET''"
    by (simp add: siteClosingText_def cleanedClosingText_def)
  have g: "\<not> garbageWord False cleanedClosingText"
    by (simp add: cleanedClosingText_def isWordChar_def isWhiteSpace_def isDigit_def
          isDateKeyword_def toLowerCase_def toLowerChar_def monthNames_def otherKeywords_def)
  have n: "newDate exampleEngine (Text cleanedClosingText) = Some 1758114900000"
    using g by (simp add: newDate_def dateRejected_def exampleEngine_def)
  have c: "biddingCloses firstBatchListing = Text siteClosingText"
    by (simp add: firstBatchListing_def exampleListing_def)
  have site: "getUpdatePriority exampleEngine now (Text siteClosingText)
                = (standard, Some 3600000)" for now
    using closing_text_with_zone_suffix[OF a b, of exampleEngine now] by (simp add: s)
  have grp: "priorityGroups exampleEngine now [firstBatchListing] priority
              = (if priority = standard then [firstBatchListing] else [])" for now priority
    using closing_text_with_zone_suffix[OF a b, of exampleEngine now firstBatchListing priority]
      c by (simp add: s)
  show ?thesis
    using a9 b s c site by (simp add: getUpdatePriority_parsed[OF n] grp)
qed


section \<open>Properties of the Worker Unit\<close>

lemma scrapeLoop_concat:
  "scrapeLoop site startId endId i = concat (map (scrapeId site startId endId) [i..endId])"
proof (induction site startId endId i rule: scrapeLoop.induct)
  case (1 site startId endId i)
  show ?case
  proof (cases "i \<le> endId")
    case True
    then have "[i..endId] = i # [i + 1..endId]" by (simp add: upto_rec1)
    then show ?thesis using True "1.IH" by (subst scrapeLoop.simps) simp
  next
    case False
    then show ?thesis by (subst scrapeLoop.simps) simp
  qed
qed

lemma scrapeId_progress:
  "filter isProgress (scrapeId site startId endId i) = [Progress i (endId - startId + 1)]"
  by (cases "site i") (simp_all add: scrapeId_def Let_def)

lemma scrapeId_error:
  "filter isError (scrapeId site startId endId i) = errorOf i (site i)"
  by (cases "site i") (simp_all add: scrapeId_def Let_def)

lemma concat_map_singleton: "concat (map (\<lambda>x. [f x]) xs) = map f xs"
  by (induction xs) simp_all

text \<open>\<open>toString\<close> writes the decimal digits of a number.\<close>

lemma digitChar_code: "d < 10 \<Longrightarrow> (of_char (digitChar d) :: nat) = 48 + d"
proof -
  assume "d < 10"
  then have "d = 0 \<or> d = 1 \<or> d = 2 \<or> d = 3 \<or> d = 4 \<or> d = 5 \<or> d = 6
    \<or> d = 7 \<or> d = 8 \<or> d = 9" by arith
  then show ?thesis by (auto simp: digitChar_def)
qed

lemma digitsValue_snoc:
  "digitsValue (ds @ [c]) = 10 * digitsValue ds + ((of_char c :: nat) - 48)"
  by (simp add: digitsValue_def)

lemma digitsValue_natToString: "digitsValue (natToString n) = n"
proof (induction n rule: natToString.induct)
  case (1 n)
  show ?case
  proof (cases "n < 10")
    case True
    then show ?thesis
      by (subst natToString.simps) (simp add: digitsValue_def digitChar_code)
  next
    case False
    have m: "n mod 10 < 10" by simp
    have "digitsValue (natToString n)
            = 10 * digitsValue (natToString (n div 10)) + ((of_char (digitChar (n mod 10)) :: nat) - 48)"
      using False by (subst natToString.simps) (simp add: digitsValue_snoc)
    also have "\<dots> = 10 * (n div 10) + n mod 10"
      using "1.IH"[OF False] digitChar_code[OF m] by simp
    finally show ?thesis by simp
  qed
qed

lemma toString_example: "toString 250900005 = ''250900005''"
  by (simp add: toString_def natToString.simps digitChar_def)

text \<open>
  C8. A worker whose set-up succeeds posts, whatever the site answers, exactly one
  progress message per ID of its range, in ascending order of the IDs, each with
  \<open>current\<close> the ID and \<open>total\<close> the size of the range. Its error messages are exactly
  one message per ID whose visit throws, naming that ID and the exception's message; the
  IDs after it are still processed, and the worker ends with its \<open>complete\<close> message. It
  then exits normally unless closing the browser fails. The ID is written in decimal
  digits: reading the digits back gives the ID. For the range \<open>[1, 1]\<close> on a site that
  answers "not found", no result is posted and the only progress message is
  \<open>current = 1, total = 1\<close>. On a site where loading the page of 250900005 times out,
  the range from 250900004 to 250900006 gives the one error message for 250900005 and
  a progress message for each of the three IDs.
\<close>

theorem worker_progress_per_id:
  "filter isProgress (fst (runWorker workerId startId endId None cleanup site))
     = map (\<lambda>i. Progress i (endId - startId + 1)) [startId..endId]
   \<and> filter isError (fst (runWorker workerId startId endId None cleanup site))
     = concat (map (\<lambda>i. errorOf i (site i)) [startId..endId])
   \<and> snd (runWorker workerId startId endId None cleanup site) = cleanup
   \<and> last (fst (runWorker workerId startId endId None cleanup site)) = Complete workerId
   \<and> filter isResult (fst (runWorker workerId 1 1 None cleanup notFoundSite)) = []
   \<and> filter isProgress (fst (runWorker workerId 1 1 None cleanup notFoundSite)) = [Progress 1 1]
   \<and> digitsValue (toString (int n)) = n
   \<and> errorOf 250900005 (Throws ''page.goto: Timeout 10000ms exceeded.'')
       = [Error ''Failed to scrape 250900005: page.goto: Timeout 10000ms exceeded.'']
   \<and> filter isError (fst (runWorker workerId 250900004 250900006 None cleanup timeoutSite))
       = [Error ''Failed to scrape 250900005: page.goto: Timeout 10000ms exceeded.'']
   \<and> filter isProgress (fst (runWorker workerId 250900004 250900006 None cleanup timeoutSite))
       = [Progress 250900004 3, Progress 250900005 3, Progress 250900006 3]"
proof -
  have p: "filter isProgress (scrapeLoop site' s e s)
             = map (\<lambda>i. Progress i (e - s + 1)) [s..e]" for site' s e
    by (simp add: scrapeLoop_concat filter_concat comp_def scrapeId_progress concat_map_singleton)
  have e: "filter isError (scrapeLoop site' s e s)
             = concat (map (\<lambda>i. errorOf i (site' i)) [s..e])" for site' s e
    by (simp add: scrapeLoop_concat filter_concat comp_def scrapeId_error)
  have one: "scrapeLoop notFoundSite 1 1 1 = [Progress 1 1]"
    by (simp add: scrapeLoop.simps scrapeId_def notFoundSite_def)
  have u: "[250900004..250900006] = [250900004, 250900005, 250900006]"
    by (simp add: upto_rec1)
  have t: "errorOf 250900005 (Throws ''page.goto: Timeout 10000ms exceeded.'')
       = [Error ''Failed to scrape 250900005: page.goto: Timeout 10000ms exceeded.'']"
    by (simp add: toString_example)
  have te: "filter isError (scrapeLoop timeoutSite 250900004 250900006 250900004)
       = [Error ''Failed to scrape 250900005: page.goto: Timeout 10000ms exceeded.'']"
    unfolding e u using t by (simp add: timeoutSite_def)
  have tp: "filter isProgress (scrapeLoop timeoutSite 250900004 250900006 250900004)
       = [Progress 250900004 3, Progress 250900005 3, Progress 250900006 3]"
    unfolding p u by simp
  have d: "digitsValue (toString (int n)) = n"
    by (simp add: toString_def digitsValue_natToString)
  show ?thesis
    using p e one t te tp d by (simp add: runWorker_def)
qed

lemmas parseFloat_defs =
  normalizeCurrency_def parseFloat_def parseUnsigned_def startsWith_def isWhiteSpace_def
  isDigit_def digitsValue_def exponentPart_def scale10_def truthy_str_def js_or_def
  truthy_def num_neg_def

lemma parseNumeric_slots:
  "minimumBidNumeric (parseNumeric i propertyData) = normalizeCurrency (minimumBid propertyData)"
  "currentBidNumeric (parseNumeric i propertyData) = normalizeCurrency (currentBid propertyData)"
  "sevValueNumeric (parseNumeric i propertyData) = normalizeCurrency (sevValue propertyData)"
  "hasBids (parseNumeric i propertyData) = deriveHasBids (currentBid propertyData)"
  by (simp_all add: parseNumeric_def pagedata.defs listing.defs)

text \<open>
  C10. The worker's normalization maps \<open>"$1,234.56"\<close> to \<open>1234.56\<close> and each of \<open>""\<close>,
  \<open>null\<close> and \<open>"N/A"\<close> to \<open>0\<close>, and it is what fills the numeric slots of the minimum bid,
  the current bid and the assessed value of every record the worker builds.
\<close>

theorem currency_normalization:
  "normalizeCurrency (Some ''$1,234.56'') = Number (Fin 1234.56)
   \<and> normalizeCurrency (Some '''') = Number (Fin 0)
   \<and> normalizeCurrency None = Number (Fin 0)
   \<and> normalizeCurrency (Some ''N/A'') = Number (Fin 0)
   \<and> minimumBidNumeric (parseNumeric i propertyData) = normalizeCurrency (minimumBid propertyData)
   \<and> currentBidNumeric (parseNumeric i propertyData) = normalizeCurrency (currentBid propertyData)
   \<and> sevValueNumeric (parseNumeric i propertyData) = normalizeCurrency (sevValue propertyData)"
proof -
  have a: "normalizeCurrency (Some ''$1,234.56'') = Number (Fin 1234.56)"
    by (simp add: parseFloat_defs)
  have b: "normalizeCurrency (Some '''') = Number (Fin 0)"
    by (simp add: parseFloat_defs)
  have c: "normalizeCurrency None = Number (Fin 0)"
    by (simp add: parseFloat_defs)
  have d: "normalizeCurrency (Some ''N/A'') = Number (Fin 0)"
    by (simp add: parseFloat_defs)
  show ?thesis using a b c d by (simp add: parseNumeric_slots)
qed

text \<open>
  C2. On the page of a listing without bids, whose current-bid text is \<open>NONE\<close>, the worker
  posts a record whose normalized current bid is \<open>0\<close> and whose \<open>hasBids\<close> is \<open>true\<close>: the
  flag is derived from the raw text alone, which is only compared with \<open>''\<close> and
  \<open>'$0.00'\<close>.
\<close>

theorem hasBids_true_for_NONE:
  "scrapeId (siteOf noBidPage) startId endId i
     = [Result (parseNumeric i noBidPage), Progress i (endId - startId + 1)]
   \<and> currentBid (parseNumeric i noBidPage) = Some ''NONE''
   \<and> currentBidNumeric (parseNumeric i noBidPage) = Number (Fin 0)
   \<and> hasBids (parseNumeric i noBidPage) = Bool True"
proof -
  have a: "normalizeCurrency (Some ''NONE'') = Number (Fin 0)"
    by (simp add: parseFloat_defs)
  have b: "deriveHasBids (Some ''NONE'') = Bool True"
    by (simp add: deriveHasBids_def)
  have r: "\<not> isRemoved (Some ''Active'')"
    by (simp add: isRemoved_def truthy_str_def toLowerCase_def toLowerChar_def startsWith_def)
  have c: "currentBid (parseNumeric i noBidPage) = Some ''NONE''"
    by (simp add: parseNumeric_def pagedata.defs listing.defs noBidPage_def)
  have s: "scrapeId (siteOf noBidPage) startId endId i
     = [Result (parseNumeric i noBidPage), Progress i (endId - startId + 1)]"
    using r by (simp add: scrapeId_def siteOf_def Let_def noBidPage_def truthy_str_def
          truthy_slot_def)
  show ?thesis using a b c s by (simp add: parseNumeric_slots noBidPage_def)
qed


section \<open>Properties of the Bid Tracker\<close>

lemma snapshotProperty_eq:
  "snapshotProperty ts now bh p =
     (if throwsFor bh p then Inl TypeError
      else Inr (stepMap ts now bh p, changedFor (entryFor bh p) p))"
proof (cases "throwsFor bh p")
  case True
  then show ?thesis by (simp add: snapshotProperty_def throwsFor_def)
next
  case False
  then have f: "\<not> (bh (propertyKey (auctionId p)) = None
                    \<and> propertyKey (auctionId p) \<in> set prototypeMembers)"
    by (simp add: throwsFor_def)
  show ?thesis
    unfolding snapshotProperty_def Let_def if_not_P[OF f] if_not_P[OF False]
    by (cases "history (entryFor bh p) = []")
       (simp_all add: stepMap_def entryFor_def changedFor_def snapshotFor_def
          effectiveBid_def Let_def last_conv_nth)
qed

lemma countChanges_eq:
  "countChanges h i c = c + length (filter (bidChangedAt h) [i..<length h])"
proof (induction h i c rule: countChanges.induct)
  case (1 h i changes)
  show ?case
  proof (cases "i < length h")
    case True
    let ?c = "if strict_neq (snap_currentBid (h ! i)) (snap_currentBid (h ! (i - 1)))
              then changes + 1 else changes"
    have u: "[i..<length h] = i # [i + 1..<length h]" using True by (simp add: upt_rec)
    have "countChanges h i changes = countChanges h (i + 1) ?c"
      using True by (subst countChanges.simps) simp
    also have "\<dots> = ?c + length (filter (bidChangedAt h) [i + 1..<length h])"
      by (rule "1.IH"[OF True])
    also have "\<dots> = changes + length (filter (bidChangedAt h) [i..<length h])"
      by (subst u) (simp add: bidChangedAt_def)
    finally show ?thesis .
  next
    case False
    then show ?thesis by (subst countChanges.simps) simp
  qed
qed

lemma updateMetrics_short: "length (history ph) < 2 \<Longrightarrow> updateMetrics now ph = ph"
  by (simp add: updateMetrics_def)

lemma updateMetrics_history [simp]: "history (updateMetrics now ph) = history ph"
  by (simp add: updateMetrics_def Let_def)

lemma updateMetrics_ident [simp]:
  "h_auctionId (updateMetrics now ph) = h_auctionId ph"
  "h_address (updateMetrics now ph) = h_address ph"
  "h_city (updateMetrics now ph) = h_city ph"
  by (simp_all add: updateMetrics_def Let_def)

lemma updateMetrics_firstBid [simp]:
  "firstBid (metrics (updateMetrics now ph)) = firstBid (metrics ph)"
  by (simp add: updateMetrics_def Let_def)

lemma updateMetrics_totalChanges:
  "2 \<le> length (history ph) \<Longrightarrow>
     totalChanges (metrics (updateMetrics now ph)) = adjacentChanges (history ph)"
  by (simp add: updateMetrics_def Let_def countChanges_eq adjacentChanges_def)

lemma updateMetrics_totalIncrease:
  assumes "2 \<le> length (history ph)"
  shows "totalIncrease (metrics (updateMetrics now ph))
       = num_sub (ToNumber (snap_currentBid (last (history ph))))
                 (ToNumber (snap_currentBid (hd (history ph))))"
proof -
  have ne: "history ph \<noteq> []" using assms by auto
  show ?thesis
    using assms ne by (simp add: updateMetrics_def Let_def last_conv_nth hd_conv_nth)
qed


lemma findLastChange_last:
  "0 < k \<Longrightarrow> k \<le> m \<Longrightarrow> bidChangedAt h k
     \<Longrightarrow> (\<forall>j. k < j \<and> j \<le> m \<longrightarrow> \<not> bidChangedAt h j)
     \<Longrightarrow> findLastChange h m l = k"
proof (induction m)
  case 0
  then show ?case by simp
next
  case (Suc m)
  show ?case
  proof (cases "k = Suc m")
    case True
    then show ?thesis using Suc.prems(3) by (simp add: bidChangedAt_def)
  next
    case False
    then have le: "k \<le> m" using Suc.prems(2) by simp
    have nc: "\<not> bidChangedAt h (Suc m)" using Suc.prems(2,4) False by simp
    have "findLastChange h m l = k"
      using Suc.IH[OF Suc.prems(1) le Suc.prems(3)] Suc.prems(4) by simp
    then show ?thesis using nc by (simp add: bidChangedAt_def)
  qed
qed

lemma findLastChange_none:
  "(\<forall>j. 0 < j \<and> j \<le> m \<longrightarrow> \<not> bidChangedAt h j) \<Longrightarrow> findLastChange h m l = l"
proof (induction m)
  case 0
  show ?case by simp
next
  case (Suc m)
  have nc: "\<not> bidChangedAt h (Suc m)" using Suc.prems by simp
  have "findLastChange h m l = l" using Suc.IH Suc.prems by simp
  then show ?case using nc by (simp add: bidChangedAt_def)
qed

lemma hasSpike_at:
  "i \<le> j \<Longrightarrow> j < length h
     \<Longrightarrow> num_ge (ToNumber (js_or (changePercent (h ! j)) (Number (Fin 0)))) (Fin 20)
     \<Longrightarrow> hasSpike h i"
proof (induction h i rule: hasSpike.induct)
  case (1 h i)
  show ?case
  proof (cases "num_ge (ToNumber (js_or (changePercent (h ! i)) (Number (Fin 0)))) (Fin 20)")
    case True
    then show ?thesis using "1.prems" by (subst hasSpike.simps) simp
  next
    case False
    then have "i \<noteq> j" using "1.prems"(3) by auto
    then have "i + 1 \<le> j" using "1.prems"(1) by simp
    then have "hasSpike h (i + 1)"
      using "1.IH"[OF _ refl False] "1.prems" by simp
    then show ?thesis using "1.prems" False by (subst hasSpike.simps) simp
  qed
qed

lemma adjacentChanges_le: "adjacentChanges h \<le> length h - 1"
proof -
  have "length (filter (bidChangedAt h) [1..<length h]) \<le> length [1..<length h]"
    by (rule length_filter_le)
  then show ?thesis by (simp add: adjacentChanges_def)
qed

lemma updateMetrics_unfold:
  assumes "2 \<le> length (history ph)"
  shows "updateMetrics now ph =
     (let h = history ph;
          m = (metrics ph)\<lparr>totalChanges := adjacentChanges h\<rparr>;
          daysDiff = (of_int (timestamp (last h) - timestamp (hd h)) :: rat)
                       / (1000 * 60 * 60 * 24);
          m = m\<lparr>bidVelocity :=
                  (if daysDiff > 0 then of_nat (adjacentChanges h) / daysDiff else 0)\<rparr>;
          lastChangeIndex = findLastChange h (length h - 1) (length h - 1);
          m = (if lastChangeIndex > 0
               then m\<lparr>lastChangeHours :=
                      Some ((of_int (now - timestamp (h ! lastChangeIndex)) :: rat)
                            / (1000 * 60 * 60))\<rparr>
               else m);
          m = m\<lparr>totalIncrease := num_sub (ToNumber (snap_currentBid (last h)))
                                          (ToNumber (snap_currentBid (hd h)))\<rparr>;
          m = m\<lparr>totalIncreasePercent :=
                 (if num_gt (ToNumber (snap_currentBid (hd h))) (Fin 0)
                  then Number (num_mul
                         (num_div (num_sub (ToNumber (snap_currentBid (last h)))
                                           (ToNumber (snap_currentBid (hd h))))
                                  (ToNumber (snap_currentBid (hd h))))
                         (Fin 100))
                  else Number (Fin 0))\<rparr>
      in ph\<lparr>metrics := m\<lparr>competitionScore :=
                calculateCompetitionScore (ph\<lparr>metrics := m\<rparr>)\<rparr>\<rparr>)"
proof -
  have ne: "history ph \<noteq> []" using assms by auto
  have nlt: "\<not> length (history ph) < 2" using assms by simp
  have h0: "history ph ! 0 = hd (history ph)" using ne by (simp add: hd_conv_nth)
  have hl: "history ph ! (length (history ph) - 1) = last (history ph)"
    using ne by (simp add: last_conv_nth)
  have cc: "countChanges (history ph) 1 0 = adjacentChanges (history ph)"
    by (simp add: countChanges_eq adjacentChanges_def)
  show ?thesis
    unfolding updateMetrics_def Let_def if_not_P[OF nlt] h0 hl cc
    by (simp split del: if_split cong: if_cong)
qed

lemma calculateCompetitionScore_cong:
  assumes "history a = history b"
    "totalChanges (metrics a) = totalChanges (metrics b)"
    "bidVelocity (metrics a) = bidVelocity (metrics b)"
    "lastChangeHours (metrics a) = lastChangeHours (metrics b)"
    "totalIncreasePercent (metrics a) = totalIncreasePercent (metrics b)"
  shows "calculateCompetitionScore a = calculateCompetitionScore b"
  by (simp only: calculateCompetitionScore_def Let_def assms)

lemma calculateCompetitionScore_ignores_score:
  "calculateCompetitionScore (ph\<lparr>metrics := m\<lparr>competitionScore := c\<rparr>\<rparr>)
     = calculateCompetitionScore (ph\<lparr>metrics := m\<rparr>)"
  by (rule calculateCompetitionScore_cong) simp_all

lemma updateMetrics_bidVelocity:
  assumes "2 \<le> length (history ph)"
  shows "bidVelocity (metrics (updateMetrics now ph))
       = (if (of_int (timestamp (last (history ph)) - timestamp (hd (history ph))) :: rat)
               / (1000 * 60 * 60 * 24) > 0
          then of_nat (adjacentChanges (history ph))
               / ((of_int (timestamp (last (history ph)) - timestamp (hd (history ph))) :: rat)
                  / (1000 * 60 * 60 * 24))
          else 0)"
  unfolding updateMetrics_unfold[OF assms] Let_def
  by (simp add: if_distrib[of bidVelocity] split del: if_split cong: if_cong)

lemma updateMetrics_lastChangeHours:
  assumes "2 \<le> length (history ph)"
  shows "lastChangeHours (metrics (updateMetrics now ph))
       = (if findLastChange (history ph) (length (history ph) - 1) (length (history ph) - 1) > 0
          then Some ((of_int (now - timestamp (history ph !
                        findLastChange (history ph) (length (history ph) - 1)
                          (length (history ph) - 1))) :: rat) / (1000 * 60 * 60))
          else lastChangeHours (metrics ph))"
  unfolding updateMetrics_unfold[OF assms] Let_def
  by (simp add: if_distrib[of lastChangeHours] split del: if_split cong: if_cong)

lemma updateMetrics_totalIncreasePercent:
  assumes "2 \<le> length (history ph)"
  shows "totalIncreasePercent (metrics (updateMetrics now ph))
       = (if num_gt (ToNumber (snap_currentBid (hd (history ph)))) (Fin 0)
          then Number (num_mul
                 (num_div (num_sub (ToNumber (snap_currentBid (last (history ph))))
                                   (ToNumber (snap_currentBid (hd (history ph)))))
                          (ToNumber (snap_currentBid (hd (history ph)))))
                 (Fin 100))
          else Number (Fin 0))"
  unfolding updateMetrics_unfold[OF assms] Let_def
  by (simp split del: if_split cong: if_cong)

lemma updateMetrics_competitionScore:
  assumes "2 \<le> length (history ph)"
  shows "competitionScore (metrics (updateMetrics now ph))
       = calculateCompetitionScore (updateMetrics now ph)"
  unfolding updateMetrics_unfold[OF assms] Let_def
  by (simp add: calculateCompetitionScore_ignores_score split del: if_split cong: if_cong)

text \<open>
  C4. Take a history with 12 adjacent-pair bid changes whose first and last snapshots
  are two days apart, whose most recent change (snapshot \<open>k\<close>) is 30 minutes old, whose
  latest bid is the first bid plus 60%, and one of whose snapshots after the first
  records a single-step change of 25%. Then the recomputed metrics are 12 changes, a
  velocity of 6 per day, 0.5 hours since the last change and an increase of 60%, and the
  competition score is 30 + 25 + 20 + 15 + 10 = 100.
\<close>

theorem competitionScore_scenario:
  assumes changes: "adjacentChanges (history ph) = 12"
    and span: "timestamp (last (history ph)) - timestamp (hd (history ph)) = 2 * 86400000"
    and k: "0 < k" "k < length (history ph)" "bidChangedAt (history ph) k"
           "\<forall>j. k < j \<and> j < length (history ph) \<longrightarrow> \<not> bidChangedAt (history ph) j"
    and recent: "now - timestamp (history ph ! k) = 30 * 60000"
    and first: "snap_currentBid (hd (history ph)) = Number (Fin f)" "0 < f"
    and latest: "snap_currentBid (last (history ph)) = Number (Fin (f + f * 60 / 100))"
    and spike: "0 < i" "i < length (history ph)" "changePercent (history ph ! i) = Number (Fin 25)"
  shows "totalChanges (metrics (updateMetrics now ph)) = 12
       \<and> bidVelocity (metrics (updateMetrics now ph)) = 6
       \<and> lastChangeHours (metrics (updateMetrics now ph)) = Some (1 / 2)
       \<and> totalIncreasePercent (metrics (updateMetrics now ph)) = Number (Fin 60)
       \<and> competitionScore (metrics (updateMetrics now ph)) = 100"
proof -
  let ?h = "history ph"
  let ?m = "metrics (updateMetrics now ph)"
  have len: "13 \<le> length ?h" using adjacentChanges_le[of ?h] changes by simp
  then have len2: "2 \<le> length ?h" by simp
  have flc: "findLastChange ?h (length ?h - 1) (length ?h - 1) = k"
    using k by (intro findLastChange_last) auto
  have sp: "hasSpike ?h 1"
    using spike by (intro hasSpike_at[of 1 i]) (simp_all add: js_or_def truthy_def ToNumber_def)
  have tc: "totalChanges ?m = 12"
    using updateMetrics_totalChanges[OF len2] changes by simp
  have bv: "bidVelocity ?m = 6"
    unfolding updateMetrics_bidVelocity[OF len2] span changes by simp
  have lc: "lastChangeHours ?m = Some (1 / 2)"
    unfolding updateMetrics_lastChangeHours[OF len2] flc recent using k(1) by simp
  have pct: "(f + f * 60 / 100 - f) / f * 100 = 60" using first(2) by simp
  have tp: "totalIncreasePercent ?m = Number (Fin 60)"
    unfolding updateMetrics_totalIncreasePercent[OF len2] first(1) latest
    using first(2) pct by (simp add: ToNumber_def)
  have cs: "competitionScore ?m = 100"
    unfolding updateMetrics_competitionScore[OF len2] calculateCompetitionScore_def Let_def
      tc bv lc tp updateMetrics_history
    using sp by (simp add: ToNumber_def)
  show ?thesis using tc bv lc tp cs by simp
qed


lemma busyHistory_nth:
  "snap_currentBid (busyHistory ! 0) = Number (Fin 1000)"
  "snap_currentBid (busyHistory ! 1) = Number (Fin 1250)"
  "snap_currentBid (busyHistory ! Suc 0) = Number (Fin 1250)"
  "changePercent (busyHistory ! Suc 0) = Number (Fin 25)"
  "snap_currentBid (busyHistory ! 2) = Number (Fin 1280)"
  "snap_currentBid (busyHistory ! 3) = Number (Fin 1310)"
  "snap_currentBid (busyHistory ! 4) = Number (Fin 1340)"
  "snap_currentBid (busyHistory ! 5) = Number (Fin 1370)"
  "snap_currentBid (busyHistory ! 6) = Number (Fin 1400)"
  "snap_currentBid (busyHistory ! 7) = Number (Fin 1430)"
  "snap_currentBid (busyHistory ! 8) = Number (Fin 1460)"
  "snap_currentBid (busyHistory ! 9) = Number (Fin 1490)"
  "snap_currentBid (busyHistory ! 10) = Number (Fin 1520)"
  "snap_currentBid (busyHistory ! 11) = Number (Fin 1550)"
  "snap_currentBid (busyHistory ! 12) = Number (Fin 1600)"
  "snap_currentBid (busyHistory ! 13) = Number (Fin 1600)"
  "timestamp (busyHistory ! 12) = 171000000"
  "changePercent (busyHistory ! 1) = Number (Fin 25)"
  "length busyHistory = 14"
  "timestamp (hd busyHistory) = 0"
  "timestamp (last busyHistory) = 172800000"
  "snap_currentBid (hd busyHistory) = Number (Fin 1000)"
  "snap_currentBid (last busyHistory) = Number (Fin 1600)"
  by (simp_all add: busyHistory_def exampleSnapshot_def changedSnapshot_def)

lemma busy_changes: "adjacentChanges busyHistory = 12"
proof -
  have u: "[1..<14] = [1, 2, 3, 4, 5, 6, 7, 8, 9, 10, 11, 12, 13::nat]"
    by (simp add: upt_rec)
  show ?thesis
    unfolding adjacentChanges_def busyHistory_nth(19) u
    by (simp add: bidChangedAt_def busyHistory_nth strict_neq_def)
qed

text \<open>The hypotheses of the scenario hold for the fourteen-snapshot history.\<close>

theorem competitionScore_scenario_witness:
  "adjacentChanges busyHistory = 12
   \<and> timestamp (last busyHistory) - timestamp (hd busyHistory) = 2 * 86400000
   \<and> bidChangedAt busyHistory 12 \<and> \<not> bidChangedAt busyHistory 13
   \<and> 172800000 - timestamp (busyHistory ! 12) = 30 * 60000
   \<and> changePercent (busyHistory ! 1) = Number (Fin 25)
   \<and> metrics (updateMetrics 172800000
          (exampleEntry ''250900001'' busyHistory (freshMetrics (Number (Fin 1000)))))
       = \<lparr>totalChanges = 12, bidVelocity = 6, lastChangeHours = Some (1 / 2),
          totalIncrease = Fin 600, totalIncreasePercent = Number (Fin 60),
          firstBid = Number (Fin 1000), competitionScore = 100\<rparr>"
proof -
  let ?ph = "exampleEntry ''250900001'' busyHistory (freshMetrics (Number (Fin 1000)))"
  have h: "history ?ph = busyHistory" by (simp add: exampleEntry_def)
  have c12: "bidChangedAt busyHistory 12"
    by (simp add: bidChangedAt_def busyHistory_nth strict_neq_def)
  have c13: "\<not> bidChangedAt busyHistory 13"
    by (simp add: bidChangedAt_def busyHistory_nth strict_neq_def)
  have after: "\<forall>j. 12 < j \<and> j < length (history ?ph) \<longrightarrow> \<not> bidChangedAt (history ?ph) j"
  proof (intro allI impI)
    fix j :: nat
    assume "12 < j \<and> j < length (history ?ph)"
    then have "j = 13" by (simp add: h busyHistory_nth)
    then show "\<not> bidChangedAt (history ?ph) j" using c13 by (simp add: h)
  qed
  have len2: "2 \<le> length (history ?ph)" by (simp add: h busyHistory_nth)
  have ti: "totalIncrease (metrics (updateMetrics 172800000 ?ph)) = Fin 600"
    by (simp add: updateMetrics_totalIncrease[OF len2] h busyHistory_nth ToNumber_def)
  have fb: "firstBid (metrics (updateMetrics 172800000 ?ph)) = Number (Fin 1000)"
    by (simp add: exampleEntry_def freshMetrics_def)
  have main: "totalChanges (metrics (updateMetrics 172800000 ?ph)) = 12
       \<and> bidVelocity (metrics (updateMetrics 172800000 ?ph)) = 6
       \<and> lastChangeHours (metrics (updateMetrics 172800000 ?ph)) = Some (1 / 2)
       \<and> totalIncreasePercent (metrics (updateMetrics 172800000 ?ph)) = Number (Fin 60)
       \<and> competitionScore (metrics (updateMetrics 172800000 ?ph)) = 100"
    by (rule competitionScore_scenario[of ?ph 12 172800000 1000 1])
       (simp_all add: h busy_changes busyHistory_nth c12 after[unfolded h])
  have "metrics (updateMetrics 172800000 ?ph)
       = \<lparr>totalChanges = 12, bidVelocity = 6, lastChangeHours = Some (1 / 2),
          totalIncrease = Fin 600, totalIncreasePercent = Number (Fin 60),
          firstBid = Number (Fin 1000), competitionScore = 100\<rparr>"
    using main ti fb by (cases "metrics (updateMetrics 172800000 ?ph)") simp
  then show ?thesis
    using busy_changes c12 c13 by (simp add: busyHistory_nth)
qed


text \<open>Evaluation of the example runs, one pass at a time.\<close>

lemma exampleListing_sel:
  "auctionId (exampleListing a c m b) = Text a"
  "address (exampleListing a c m b) = Some ''123 MAIN''"
  "city (exampleListing a c m b) = Some ''DETROIT''"
  "status (exampleListing a c m b) = Some ''Active''"
  "biddingCloses (exampleListing a c m b) = b"
  "currentBidNumeric (exampleListing a c m b) = c"
  "minimumBidNumeric (exampleListing a c m b) = m"
  "hasBids (exampleListing a c m b) = Bool (truthy c)"
  by (simp_all add: exampleListing_def)

lemma snapshotLoop_Cons:
  "snapshotLoop ts clock (p # ps) (bh, c, k)
     = (if throwsFor bh p then ((bh, c, k), Some TypeError)
        else snapshotLoop ts clock ps
               (stepMap ts (clock k) bh p,
                (if changedFor (entryFor bh p) p then c + 1 else c), k + 1))"
  by (simp add: snapshotLoop.simps(2) snapshotProperty_eq)

lemma snapshotLoop_single:
  "snapshotLoop ts clock [p] (bh, c, k)
     = (if throwsFor bh p then ((bh, c, k), Some TypeError)
        else ((stepMap ts (clock k) bh p,
               (if changedFor (entryFor bh p) p then c + 1 else c), k + 1), None))"
  by (simp add: snapshotLoop_Cons)

lemma exampleKeys:
  "''250900001'' \<notin> set prototypeMembers"
  "''250900002'' \<notin> set prototypeMembers"
  "''250900003'' \<notin> set prototypeMembers"
  "''constructor'' \<in> set prototypeMembers"
  by (simp_all add: prototypeMembers_def)

lemmas pass_defs =
  recordSnapshot_def snapshotLoop_single throwsFor_def stepMap_def exampleKeys entryFor_def
  changedFor_def snapshotFor_def exampleListing_sel propertyKey_def effectiveBid_def js_or_def
  truthy_def truthy_val_def fixedClock_def strict_neq_def newHistory_def BidTracker_def
  exampleSnapshot_def exampleEntry_def freshMetrics_def

lemmas metric_evals =
  countChanges.simps hasSpike.simps ToNumber_def js_or_def truthy_def strict_neq_def

lemma quietTracker1_eq:
  "quietTracker1 =
     \<lparr>bidHistory = [''250900001'' \<mapsto>
        exampleEntry ''250900001'' [exampleSnapshot 0 600 Undefined Undefined]
          (freshMetrics (Number (Fin 600)))],
      currentProperties = []\<rparr>"
  by (simp add: quietTracker1_def quietListing_def pass_defs updateMetrics_short)

lemma quietTracker2_eq:
  "quietTracker2 =
     \<lparr>bidHistory = [''250900001'' \<mapsto>
        exampleEntry ''250900001''
          [exampleSnapshot 0 600 Undefined Undefined,
           exampleSnapshot 86400000 600 Undefined Undefined]
          \<lparr>totalChanges = 0, bidVelocity = 0, lastChangeHours = Some (1 / 60),
           totalIncrease = Fin 0, totalIncreasePercent = Number (Fin 0),
           firstBid = Number (Fin 600), competitionScore = 20\<rparr>],
      currentProperties = []\<rparr>"
  unfolding quietTracker2_def quietTracker1_eq
  apply (simp add: quietListing_def pass_defs)
  apply (unfold updateMetrics_def calculateCompetitionScore_def Let_def)
  apply (simp add: metric_evals)
  done

lemma risingTracker0_eq:
  "risingTracker0 =
     \<lparr>bidHistory = [''250900001'' \<mapsto>
        exampleEntry ''250900001'' [exampleSnapshot 0 500 Undefined Undefined]
          (freshMetrics (Number (Fin 500)))],
      currentProperties = []\<rparr>"
  by (simp add: risingTracker0_def openingListing_def pass_defs updateMetrics_short)

lemma risingTracker1_eq:
  "risingTracker1 =
     \<lparr>bidHistory = [''250900001'' \<mapsto>
        exampleEntry ''250900001''
          [exampleSnapshot 0 500 Undefined Undefined,
           exampleSnapshot 86400000 600 (Number (Fin 100)) (Number (Fin 20))]
          \<lparr>totalChanges = 1, bidVelocity = 1, lastChangeHours = Some 0,
           totalIncrease = Fin 100, totalIncreasePercent = Number (Fin 20),
           firstBid = Number (Fin 500), competitionScore = 55\<rparr>],
      currentProperties = []\<rparr>"
  unfolding risingTracker1_def risingTracker0_eq
  apply (simp add: quietListing_def pass_defs ToNumber_def)
  apply (unfold updateMetrics_def calculateCompetitionScore_def Let_def)
  apply (simp add: metric_evals)
  done

lemma risingPass2:
  "recordSnapshot (Some [quietListing]) 172800000 (fixedClock 172800000) True risingTracker1 =
     (\<lparr>bidHistory = [''250900001'' \<mapsto>
        exampleEntry ''250900001''
          [exampleSnapshot 0 500 Undefined Undefined,
           exampleSnapshot 86400000 600 (Number (Fin 100)) (Number (Fin 20)),
           exampleSnapshot 172800000 600 Undefined Undefined]
          \<lparr>totalChanges = 1, bidVelocity = 1 / 2, lastChangeHours = Some 24,
           totalIncrease = Fin 100, totalIncreasePercent = Number (Fin 20),
           firstBid = Number (Fin 500), competitionScore = 40\<rparr>],
      currentProperties = []\<rparr>,
      Inr (Some \<lparr>r_timestamp = 172800000, r_totalTracked = 1, r_newChanges = 0\<rparr>))"
  unfolding risingTracker1_eq
  apply (simp add: quietListing_def pass_defs ToNumber_def)
  apply (unfold updateMetrics_def calculateCompetitionScore_def Let_def)
  apply (simp add: metric_evals)
  done


text \<open>The loop of \<open>recordSnapshot\<close> over listings with distinct keys.\<close>

lemma snapshotFor_bid [simp]: "snap_currentBid (snapshotFor ts ph p) = effectiveBid p"
  by (simp add: snapshotFor_def Let_def)

lemma snapshotFor_unchanged:
  "\<not> changedFor ph p \<Longrightarrow> snapshotFor ts ph p = unchangedSnapshot ts p"
  by (simp add: snapshotFor_def unchangedSnapshot_def Let_def)

lemma stepMap_other:
  "x \<noteq> propertyKey (auctionId p) \<Longrightarrow> stepMap ts now bh p x = bh x"
  by (simp add: stepMap_def)

lemma stepMap_key:
  "stepMap ts now bh p (propertyKey (auctionId p))
     = Some (updateMetrics now ((entryFor bh p)\<lparr>history :=
               history (entryFor bh p) @ [snapshotFor ts (entryFor bh p) p]\<rparr>))"
  by (simp add: stepMap_def)

lemma throwsFor_safe:
  "propertyKey (auctionId p) \<notin> set prototypeMembers \<Longrightarrow> \<not> throwsFor bh p"
  by (simp add: throwsFor_def)

lemma throwsFor_stored:
  "bh (propertyKey (auctionId p)) = Some e \<Longrightarrow> \<not> throwsFor bh p"
  by (simp add: throwsFor_def)

lemma snapshotLoop_other:
  "x \<notin> (\<lambda>p. propertyKey (auctionId p)) ` set ps
     \<Longrightarrow> fst (fst (snapshotLoop ts clock ps (bh, c, k))) x = bh x"
proof (induction ps arbitrary: bh c k)
  case Nil
  show ?case by simp
next
  case (Cons p ps)
  have x: "x \<noteq> propertyKey (auctionId p)" using Cons.prems by auto
  have xs: "x \<notin> (\<lambda>p. propertyKey (auctionId p)) ` set ps" using Cons.prems by auto
  show ?case
  proof (cases "throwsFor bh p")
    case True
    then show ?thesis by (simp add: snapshotLoop_Cons)
  next
    case False
    then show ?thesis
      using Cons.IH[OF xs] stepMap_other[OF x] by (simp add: snapshotLoop_Cons)
  qed
qed

lemma snapshotLoop_safe:
  "\<forall>p\<in>set ps. propertyKey (auctionId p) \<notin> set prototypeMembers
     \<Longrightarrow> snd (snapshotLoop ts clock ps (bh, c, k)) = None
         \<and> snd (snd (fst (snapshotLoop ts clock ps (bh, c, k)))) = k + length ps"
proof (induction ps arbitrary: bh c k)
  case Nil
  show ?case by simp
next
  case (Cons p ps)
  have nt: "\<not> throwsFor bh p" using Cons.prems by (intro throwsFor_safe) simp
  have rest: "\<forall>p\<in>set ps. propertyKey (auctionId p) \<notin> set prototypeMembers"
    using Cons.prems by simp
  show ?case
    unfolding snapshotLoop_Cons if_not_P[OF nt] using Cons.IH[OF rest] by simp
qed

lemma adjacentChanges_snoc:
  assumes "h \<noteq> []"
  shows "adjacentChanges (h @ [s])
       = adjacentChanges h
         + (if strict_neq (snap_currentBid s) (snap_currentBid (last h)) then 1 else 0)"
proof -
  have len: "1 \<le> length h" using assms by (cases h) simp_all
  have u: "[1..<length (h @ [s])] = [1..<length h] @ [length h]"
    using len by simp
  have same: "filter (bidChangedAt (h @ [s])) [Suc 0..<length h]
                = filter (bidChangedAt h) [Suc 0..<length h]"
    by (rule filter_cong) (auto simp: bidChangedAt_def nth_append)
  have lastc: "bidChangedAt (h @ [s]) (length h)
                 = strict_neq (snap_currentBid s) (snap_currentBid (last h))"
    using assms len by (simp add: bidChangedAt_def nth_append last_conv_nth)
  show ?thesis
    unfolding adjacentChanges_def u by (simp add: same lastc)
qed

lemma adjacentChanges_single [simp]: "adjacentChanges [s] = 0"
  by (simp add: adjacentChanges_def)

lemma finiteBid_not_changed:
  "finiteBid p \<Longrightarrow> \<not> strict_neq (effectiveBid p) (effectiveBid p)"
  by (auto simp: finiteBid_def strict_neq_def split: jsnum.splits num.splits)

lemma finiteBid_sub:
  "finiteBid p \<Longrightarrow> num_sub (ToNumber (effectiveBid p)) (ToNumber (effectiveBid p)) = Fin 0"
  by (auto simp: finiteBid_def ToNumber_def split: jsnum.splits num.splits)

lemma finiteBid_percent:
  "finiteBid p \<Longrightarrow> increasePercent (effectiveBid p) (effectiveBid p) = Number (Fin 0)"
  by (auto simp: finiteBid_def increasePercent_def ToNumber_def split: jsnum.splits num.splits)

lemma updateMetrics_percent:
  "2 \<le> length (history ph) \<Longrightarrow>
     totalIncreasePercent (metrics (updateMetrics now ph))
       = increasePercent (snap_currentBid (hd (history ph))) (snap_currentBid (last (history ph)))"
  by (simp add: updateMetrics_totalIncreasePercent increasePercent_def)

text \<open>One loop body brings the history of its listing up to date.\<close>

lemma stepMap_settles:
  assumes fin: "finiteBid p" and ne: "nonemptyHistories bh"
  shows "settled (stepMap ts now bh p) p"
proof (cases "bh (propertyKey (auctionId p))")
  case None
  then have e: "entryFor bh p = newHistory p" by (simp add: entryFor_def)
  show ?thesis
    using fin
    by (simp add: settled_def stepMap_key e newHistory_def updateMetrics_short
          finiteBid_sub)
next
  case (Some ph)
  then have e: "entryFor bh p = ph" by (simp add: entryFor_def)
  have hne: "history ph \<noteq> []" using ne Some by (simp add: nonemptyHistories_def)
  let ?e = "ph\<lparr>history := history ph @ [snapshotFor ts ph p]\<rparr>"
  have len: "2 \<le> length (history ?e)" using hne by (cases "history ph") simp_all
  show ?thesis
    using hne
    by (simp add: settled_def stepMap_key e updateMetrics_totalChanges[OF len]
          updateMetrics_totalIncrease[OF len] updateMetrics_percent[OF len])
qed

lemma stepMap_nonempty:
  assumes "nonemptyHistories bh"
  shows "nonemptyHistories (stepMap ts now bh p)"
  using assms by (auto simp: nonemptyHistories_def stepMap_def)

lemma settled_cong:
  "bh (propertyKey (auctionId p)) = bh' (propertyKey (auctionId p))
     \<Longrightarrow> settled bh p = settled bh' p"
  by (simp add: settled_def)

lemma snapshotLoop_settles:
  assumes "distinct (map (\<lambda>p. propertyKey (auctionId p)) ps)"
    and "\<forall>p\<in>set ps. finiteBid p"
    and "\<forall>p\<in>set ps. propertyKey (auctionId p) \<notin> set prototypeMembers"
    and "nonemptyHistories bh"
  shows "\<forall>p\<in>set ps. settled (fst (fst (snapshotLoop ts clock ps (bh, c, k)))) p"
  using assms
proof (induction ps arbitrary: bh c k)
  case Nil
  show ?case by simp
next
  case (Cons q ps)
  let ?bh1 = "stepMap ts (clock k) bh q"
  let ?c1 = "if changedFor (entryFor bh q) q then c + 1 else c"
  have nt: "\<not> throwsFor bh q" using Cons.prems(3) by (intro throwsFor_safe) simp
  have step: "snapshotLoop ts clock (q # ps) (bh, c, k)
                = snapshotLoop ts clock ps (?bh1, ?c1, k + 1)"
    unfolding snapshotLoop_Cons if_not_P[OF nt] by (rule refl)
  have d: "distinct (map (\<lambda>p. propertyKey (auctionId p)) ps)" using Cons.prems(1) by simp
  have qn: "propertyKey (auctionId q) \<notin> (\<lambda>p. propertyKey (auctionId p)) ` set ps"
    using Cons.prems(1) by simp
  have f: "\<forall>p\<in>set ps. finiteBid p" using Cons.prems(2) by simp
  have s: "\<forall>p\<in>set ps. propertyKey (auctionId p) \<notin> set prototypeMembers"
    using Cons.prems(3) by simp
  have n1: "nonemptyHistories ?bh1" using Cons.prems(4) by (rule stepMap_nonempty)
  have rest: "\<forall>p\<in>set ps. settled (fst (fst (snapshotLoop ts clock ps (?bh1, ?c1, k + 1)))) p"
    by (rule Cons.IH[OF d f s n1])
  have q1: "settled ?bh1 q"
    using Cons.prems(2,4) by (intro stepMap_settles) simp_all
  have "fst (fst (snapshotLoop ts clock ps (?bh1, ?c1, k + 1))) (propertyKey (auctionId q))
          = ?bh1 (propertyKey (auctionId q))"
    by (rule snapshotLoop_other[OF qn])
  then have "settled (fst (fst (snapshotLoop ts clock ps (?bh1, ?c1, k + 1)))) q
               = settled ?bh1 q"
    by (rule settled_cong)
  then have "settled (fst (fst (snapshotLoop ts clock ps (?bh1, ?c1, k + 1)))) q"
    using q1 by simp
  then show ?case using rest by (simp only: step) simp
qed

text \<open>A loop body on a history that is up to date appends the unchanged snapshot.\<close>

lemma stepMap_keeps:
  assumes s: "settled bh p" and fin: "finiteBid p"
  shows "\<not> throwsFor bh p"
    and "\<not> changedFor (entryFor bh p) p"
    and "bidMetricsKept ts bh (stepMap ts now bh p) p"
proof -
  obtain e where e: "bh (propertyKey (auctionId p)) = Some e"
    using s by (auto simp: settled_def split: option.splits)
  show "\<not> throwsFor bh p" using e by (rule throwsFor_stored)
  have ent: "entryFor bh p = e" using e by (simp add: entryFor_def)
  have hne: "history e \<noteq> []"
    and lastb: "snap_currentBid (last (history e)) = effectiveBid p"
    and tc: "totalChanges (metrics e) = adjacentChanges (history e)"
    and ti: "totalIncrease (metrics e)
              = num_sub (ToNumber (effectiveBid p)) (ToNumber (snap_currentBid (hd (history e))))"
    and tp: "2 \<le> length (history e) \<longrightarrow>
               totalIncreasePercent (metrics e)
                 = increasePercent (snap_currentBid (hd (history e))) (effectiveBid p)"
    using s e by (simp_all add: settled_def)
  have nch: "\<not> changedFor e p"
    using hne lastb finiteBid_not_changed[OF fin] by (simp add: changedFor_def)
  show "\<not> changedFor (entryFor bh p) p" using nch by (simp add: ent)
  have sn: "snapshotFor ts e p = unchangedSnapshot ts p"
    using nch by (rule snapshotFor_unchanged)
  let ?e = "e\<lparr>history := history e @ [unchangedSnapshot ts p]\<rparr>"
  have len: "2 \<le> length (history ?e)" using hne by (cases "history e") simp_all
  have ub: "snap_currentBid (unchangedSnapshot ts p) = effectiveBid p"
    by (simp add: unchangedSnapshot_def)
  have tc': "totalChanges (metrics (updateMetrics now ?e)) = totalChanges (metrics e)"
    using hne lastb finiteBid_not_changed[OF fin]
    by (simp add: updateMetrics_totalChanges[OF len] adjacentChanges_snoc tc ub)
  have ti': "totalIncrease (metrics (updateMetrics now ?e)) = totalIncrease (metrics e)"
    using hne by (simp add: updateMetrics_totalIncrease[OF len] ti ub)
  have pct: "totalIncreasePercent (metrics (updateMetrics now ?e))
               = increasePercent (snap_currentBid (hd (history e))) (effectiveBid p)"
    using hne by (simp add: updateMetrics_percent[OF len] ub)
  have tp': "totalIncreasePercent (metrics (updateMetrics now ?e))
               = (if 2 \<le> length (history e) then totalIncreasePercent (metrics e)
                  else Number (Fin 0))"
  proof (cases "2 \<le> length (history e)")
    case True
    then show ?thesis using pct tp by simp
  next
    case False
    moreover have "0 < length (history e)" using hne by simp
    ultimately have "length (history e) = 1" by arith
    then have "hd (history e) = last (history e)"
      by (cases "history e") simp_all
    then show ?thesis using False pct lastb finiteBid_percent[OF fin] by simp
  qed
  show "bidMetricsKept ts bh (stepMap ts now bh p) p"
    using tc' ti' tp' lastb by (simp add: bidMetricsKept_def e stepMap_key ent sn)
qed

lemma bidMetricsKept_cong:
  "bh1 (propertyKey (auctionId p)) = bh2 (propertyKey (auctionId p))
     \<Longrightarrow> bh1' (propertyKey (auctionId p)) = bh2' (propertyKey (auctionId p))
     \<Longrightarrow> bidMetricsKept ts bh1 bh1' p = bidMetricsKept ts bh2 bh2' p"
  by (simp add: bidMetricsKept_def)

lemma snapshotLoop_keeps:
  assumes "distinct (map (\<lambda>p. propertyKey (auctionId p)) ps)"
    and "\<forall>p\<in>set ps. settled bh p \<and> finiteBid p"
  shows "snd (snapshotLoop ts clock ps (bh, c, k)) = None
       \<and> fst (snd (fst (snapshotLoop ts clock ps (bh, c, k)))) = c
       \<and> snd (snd (fst (snapshotLoop ts clock ps (bh, c, k)))) = k + length ps
       \<and> (\<forall>p\<in>set ps. bidMetricsKept ts bh (fst (fst (snapshotLoop ts clock ps (bh, c, k)))) p)"
  using assms
proof (induction ps arbitrary: bh c k)
  case Nil
  show ?case by simp
next
  case (Cons q ps)
  let ?bh1 = "stepMap ts (clock k) bh q"
  let ?loop = "snapshotLoop ts clock ps (?bh1, c, k + 1)"
  let ?final = "fst (fst ?loop)"
  have sq: "settled bh q" and fq: "finiteBid q" using Cons.prems(2) by simp_all
  have nt: "\<not> throwsFor bh q" by (rule stepMap_keeps(1)[OF sq fq])
  have flag: "\<not> changedFor (entryFor bh q) q" by (rule stepMap_keeps(2)[OF sq fq])
  have step: "snapshotLoop ts clock (q # ps) (bh, c, k) = ?loop"
    unfolding snapshotLoop_Cons if_not_P[OF nt] if_not_P[OF flag] by (rule refl)
  have d: "distinct (map (\<lambda>p. propertyKey (auctionId p)) ps)" using Cons.prems(1) by simp
  have qn: "propertyKey (auctionId q) \<notin> (\<lambda>p. propertyKey (auctionId p)) ` set ps"
    using Cons.prems(1) by simp
  have other: "?bh1 (propertyKey (auctionId p)) = bh (propertyKey (auctionId p))"
    if "p \<in> set ps" for p
  proof -
    have "propertyKey (auctionId p) \<in> (\<lambda>p. propertyKey (auctionId p)) ` set ps"
      using that by (rule imageI)
    then have "propertyKey (auctionId p) \<noteq> propertyKey (auctionId q)" using qn by metis
    then show ?thesis by (rule stepMap_other)
  qed
  have pre: "\<forall>p\<in>set ps. settled ?bh1 p \<and> finiteBid p"
  proof
    fix p assume p: "p \<in> set ps"
    have "settled ?bh1 p = settled bh p" using other[OF p] by (rule settled_cong)
    then show "settled ?bh1 p \<and> finiteBid p" using Cons.prems(2) p by simp
  qed
  have IH: "snd ?loop = None
       \<and> fst (snd (fst ?loop)) = c
       \<and> snd (snd (fst ?loop)) = (k + 1) + length ps
       \<and> (\<forall>p\<in>set ps. bidMetricsKept ts ?bh1 ?final p)"
    by (rule Cons.IH[OF d pre])
  have rest: "bidMetricsKept ts bh ?final p" if "p \<in> set ps" for p
  proof -
    have "bidMetricsKept ts ?bh1 ?final p = bidMetricsKept ts bh ?final p"
      by (rule bidMetricsKept_cong[of ?bh1 p bh ?final ?final, OF other[OF that] refl])
    then show ?thesis using IH that by simp
  qed
  have fq': "?final (propertyKey (auctionId q)) = ?bh1 (propertyKey (auctionId q))"
    by (rule snapshotLoop_other[OF qn])
  have "bidMetricsKept ts bh ?final q = bidMetricsKept ts bh ?bh1 q"
    by (rule bidMetricsKept_cong[of bh q bh ?final ?bh1, OF refl fq'])
  then have hd: "bidMetricsKept ts bh ?final q"
    using stepMap_keeps(3)[OF sq fq] by simp
  show ?case
    unfolding step using IH rest hd by simp
qed

lemma recordSnapshot_bidHistory:
  "bidHistory (fst (recordSnapshot properties ts clock written t))
     = fst (fst (snapshotLoop ts clock
              (case properties of None \<Rightarrow> currentProperties t | Some ps \<Rightarrow> ps)
              (bidHistory t, 0, 0)))"
proof (cases "(case properties of None \<Rightarrow> currentProperties t | Some ps \<Rightarrow> ps) = []")
  case True
  then show ?thesis by (simp add: recordSnapshot_def)
next
  case False
  then show ?thesis
    by (simp add: recordSnapshot_def split_def Let_def split: option.splits)
qed

lemma recordSnapshot_currentProperties:
  "currentProperties (fst (recordSnapshot properties ts clock written t)) = currentProperties t"
  by (simp add: recordSnapshot_def split_def Let_def split: option.splits)

lemma recordSnapshot_result:
  "props \<noteq> [] \<Longrightarrow> snd (snapshotLoop ts clock props (bidHistory t, 0, 0)) = None \<Longrightarrow>
     snd (recordSnapshot (Some props) ts clock True t)
       = Inr (Some \<lparr>r_timestamp = ts,
            r_totalTracked = snd (snd (fst (snapshotLoop ts clock props (bidHistory t, 0, 0)))),
            r_newChanges = fst (snd (fst (snapshotLoop ts clock props (bidHistory t, 0, 0))))\<rparr>)"
  by (simp add: recordSnapshot_def split_def Let_def)

text \<open>
  C1 (as amended). Let \<open>S\<close> be a non-empty list of listings with pairwise distinct keys,
  none of which names a member of \<open>Object.prototype\<close>, whose recorded bids are finite
  numbers, and let every history already stored be non-empty (as in every state the
  tracker reaches from its constructor). After one \<open>recordSnapshot(S)\<close>, whether or not
  its files could be written, a second \<open>recordSnapshot(S)\<close> whose files are written
  returns \<open>newChanges = 0\<close> with \<open>totalTracked\<close> the length of \<open>S\<close>. For every listing of
  \<open>S\<close>, the history after the first pass ends with a snapshot of the listing's bid, and
  the second pass appends to it exactly one snapshot: the one with the time of the pass,
  the listing's bid, bid flag, minimum bid and status, and no \<open>change\<close> and
  \<open>changePercent\<close>. It leaves the identification, \<open>firstBid\<close>, \<open>totalChanges\<close> and
  \<open>totalIncrease\<close> as they were, and \<open>totalIncreasePercent\<close> too once it has been
  computed (on a history with a single snapshot it is not yet set, and the second pass
  sets it to \<open>0\<close>). The clocks of the two passes are arbitrary.
\<close>

theorem second_identical_snapshot:
  assumes "S \<noteq> []"
    and "distinct (map (\<lambda>p. propertyKey (auctionId p)) S)"
    and "\<forall>p\<in>set S. propertyKey (auctionId p) \<notin> set prototypeMembers"
    and "\<forall>p\<in>set S. finiteBid p"
    and "nonemptyHistories (bidHistory t0)"
  shows "snd (recordSnapshot (Some S) ts2 clock2 True
                (fst (recordSnapshot (Some S) ts1 clock1 written1 t0)))
           = Inr (Some \<lparr>r_timestamp = ts2, r_totalTracked = length S, r_newChanges = 0\<rparr>)
       \<and> (\<forall>p\<in>set S. \<exists>e1 e2.
             bidHistory (fst (recordSnapshot (Some S) ts1 clock1 written1 t0))
               (propertyKey (auctionId p)) = Some e1
           \<and> bidHistory (fst (recordSnapshot (Some S) ts2 clock2 written2
                 (fst (recordSnapshot (Some S) ts1 clock1 written1 t0))))
               (propertyKey (auctionId p)) = Some e2
           \<and> snap_currentBid (last (history e1)) = effectiveBid p
           \<and> history e2
               = history e1
                 @ [\<lparr>timestamp = ts2,
                     snap_currentBid = effectiveBid p,
                     snap_hasBids = (if truthy_val (hasBids p) then hasBids p else Bool False),
                     snap_minimumBid = minimumBidNumeric p,
                     snap_status = status p,
                     change = Undefined,
                     changePercent = Undefined\<rparr>]
           \<and> h_auctionId e2 = h_auctionId e1
           \<and> h_address e2 = h_address e1
           \<and> h_city e2 = h_city e1
           \<and> firstBid (metrics e2) = firstBid (metrics e1)
           \<and> totalChanges (metrics e2) = totalChanges (metrics e1)
           \<and> totalIncrease (metrics e2) = totalIncrease (metrics e1)
           \<and> totalIncreasePercent (metrics e2)
               = (if 2 \<le> length (history e1) then totalIncreasePercent (metrics e1)
                  else Number (Fin 0)))"
proof -
  let ?l1 = "snapshotLoop ts1 clock1 S (bidHistory t0, 0, 0)"
  let ?bh1 = "fst (fst ?l1)"
  let ?t1 = "fst (recordSnapshot (Some S) ts1 clock1 written1 t0)"
  have t1: "bidHistory ?t1 = ?bh1"
    by (simp add: recordSnapshot_bidHistory)
  have st: "\<forall>p\<in>set S. settled ?bh1 p"
    by (rule snapshotLoop_settles[OF assms(2,4,3,5)])
  then have pre: "\<forall>p\<in>set S. settled ?bh1 p \<and> finiteBid p" using assms(4) by simp
  let ?l2 = "snapshotLoop ts2 clock2 S (?bh1, 0, 0)"
  have keep: "snd ?l2 = None
       \<and> fst (snd (fst ?l2)) = 0
       \<and> snd (snd (fst ?l2)) = 0 + length S
       \<and> (\<forall>p\<in>set S. bidMetricsKept ts2 ?bh1 (fst (fst ?l2)) p)"
    by (rule snapshotLoop_keeps[OF assms(2) pre])
  have no: "snd (snapshotLoop ts2 clock2 S (bidHistory ?t1, 0, 0)) = None"
    using keep by (simp add: t1)
  have r2: "snd (recordSnapshot (Some S) ts2 clock2 True ?t1)
           = Inr (Some \<lparr>r_timestamp = ts2, r_totalTracked = length S, r_newChanges = 0\<rparr>)"
    unfolding recordSnapshot_result[OF assms(1) no] using keep by (simp add: t1)
  have t2: "bidHistory (fst (recordSnapshot (Some S) ts2 clock2 written2 ?t1)) = fst (fst ?l2)"
    by (simp add: recordSnapshot_bidHistory)
  have each: "\<exists>e1 e2. ?bh1 (propertyKey (auctionId p)) = Some e1
           \<and> fst (fst ?l2) (propertyKey (auctionId p)) = Some e2
           \<and> snap_currentBid (last (history e1)) = effectiveBid p
           \<and> history e2 = history e1 @ [unchangedSnapshot ts2 p]
           \<and> h_auctionId e2 = h_auctionId e1
           \<and> h_address e2 = h_address e1
           \<and> h_city e2 = h_city e1
           \<and> firstBid (metrics e2) = firstBid (metrics e1)
           \<and> totalChanges (metrics e2) = totalChanges (metrics e1)
           \<and> totalIncrease (metrics e2) = totalIncrease (metrics e1)
           \<and> totalIncreasePercent (metrics e2)
               = (if 2 \<le> length (history e1) then totalIncreasePercent (metrics e1)
                  else Number (Fin 0))" if "p \<in> set S" for p
  proof -
    have "bidMetricsKept ts2 ?bh1 (fst (fst ?l2)) p" using keep that by simp
    then show ?thesis by (auto simp: bidMetricsKept_def split: option.splits)
  qed
  show ?thesis
    unfolding t2 t1 using r2[unfolded t1] each[unfolded unchangedSnapshot_def] by blast
qed


text \<open>
  The hypotheses of the statement hold for a pass over two listings, from the
  constructor's state.
\<close>

theorem second_identical_snapshot_witness:
  "twoListings \<noteq> []
   \<and> finiteBid quietListing \<and> finiteBid zeroBidListing
   \<and> propertyKey (auctionId quietListing) \<noteq> propertyKey (auctionId zeroBidListing)
   \<and> propertyKey (auctionId quietListing) \<notin> set prototypeMembers
   \<and> propertyKey (auctionId zeroBidListing) \<notin> set prototypeMembers
   \<and> nonemptyHistories (bidHistory BidTracker)
   \<and> snd (recordSnapshot (Some twoListings) 86400000 (fixedClock 86460000) True
            (fst (recordSnapshot (Some twoListings) 0 (fixedClock 0) True BidTracker)))
        = Inr (Some \<lparr>r_timestamp = 86400000, r_totalTracked = 2, r_newChanges = 0\<rparr>)"
proof -
  have a: "twoListings \<noteq> []" by (simp add: twoListings_def)
  have k: "propertyKey (auctionId quietListing) \<noteq> propertyKey (auctionId zeroBidListing)"
    by (simp add: quietListing_def zeroBidListing_def exampleListing_sel propertyKey_def)
  have b: "distinct (map (\<lambda>p. propertyKey (auctionId p)) twoListings)"
    using k by (simp add: twoListings_def)
  have s: "propertyKey (auctionId quietListing) \<notin> set prototypeMembers"
    "propertyKey (auctionId zeroBidListing) \<notin> set prototypeMembers"
    by (simp_all add: quietListing_def zeroBidListing_def exampleListing_sel propertyKey_def
          exampleKeys)
  then have s': "\<forall>p\<in>set twoListings. propertyKey (auctionId p) \<notin> set prototypeMembers"
    by (simp add: twoListings_def)
  have f: "finiteBid quietListing" "finiteBid zeroBidListing"
    by (simp_all add: finiteBid_def effectiveBid_def js_or_def truthy_def quietListing_def
          zeroBidListing_def exampleListing_sel)
  then have c: "\<forall>p\<in>set twoListings. finiteBid p" by (simp add: twoListings_def)
  have d: "nonemptyHistories (bidHistory BidTracker)"
    by (simp add: nonemptyHistories_def BidTracker_def)
  have len: "length twoListings = 2" by (simp add: twoListings_def)
  show ?thesis
    using second_identical_snapshot[OF a b s' c d, of 86400000 "fixedClock 86460000" 0
            "fixedClock 0" True True] a k s f d
    by (simp add: len)
qed

text \<open>
  C1 (counterexample). The listing is recorded with bid 500 at time 0 and, one day and
  two days later, two passes receive the same input (bid 600). The second of them
  reports no new change, yet \<open>bidVelocity\<close> goes from 1 to 1/2 per day,
  \<open>lastChangeHours\<close> from 0 to 24 and \<open>competitionScore\<close> from 55 to 40.
\<close>

theorem metrics_change_on_identical_input:
  "risingTracker2
     = fst (recordSnapshot (Some [quietListing]) 172800000 (fixedClock 172800000) True
              risingTracker1)
   \<and> snd (recordSnapshot (Some [quietListing]) 172800000 (fixedClock 172800000) True
              risingTracker1)
       = Inr (Some \<lparr>r_timestamp = 172800000, r_totalTracked = 1, r_newChanges = 0\<rparr>)
   \<and> metrics (the (bidHistory risingTracker1 ''250900001''))
       = \<lparr>totalChanges = 1, bidVelocity = 1, lastChangeHours = Some 0,
          totalIncrease = Fin 100, totalIncreasePercent = Number (Fin 20),
          firstBid = Number (Fin 500), competitionScore = 55\<rparr>
   \<and> metrics (the (bidHistory risingTracker2 ''250900001''))
       = \<lparr>totalChanges = 1, bidVelocity = 1 / 2, lastChangeHours = Some 24,
          totalIncrease = Fin 100, totalIncreasePercent = Number (Fin 20),
          firstBid = Number (Fin 500), competitionScore = 40\<rparr>
   \<and> metrics (the (bidHistory risingTracker2 ''250900001''))
       \<noteq> metrics (the (bidHistory risingTracker1 ''250900001''))"
proof -
  have m1: "metrics (the (bidHistory risingTracker1 ''250900001''))
       = \<lparr>totalChanges = 1, bidVelocity = 1, lastChangeHours = Some 0,
          totalIncrease = Fin 100, totalIncreasePercent = Number (Fin 20),
          firstBid = Number (Fin 500), competitionScore = 55\<rparr>"
    by (simp add: risingTracker1_eq exampleEntry_def)
  have m2: "metrics (the (bidHistory risingTracker2 ''250900001''))
       = \<lparr>totalChanges = 1, bidVelocity = 1 / 2, lastChangeHours = Some 24,
          totalIncrease = Fin 100, totalIncreasePercent = Number (Fin 20),
          firstBid = Number (Fin 500), competitionScore = 40\<rparr>"
    by (simp add: risingTracker2_def risingPass2 exampleEntry_def)
  show ?thesis
    unfolding m1 m2 by (simp add: risingTracker2_def risingPass2)
qed

lemma adjacentChanges_zero:
  assumes "adjacentChanges h = 0" "0 < j" "j < length h"
  shows "\<not> bidChangedAt h j"
proof -
  have "filter (bidChangedAt h) [1..<length h] = []"
    using assms(1) by (simp add: adjacentChanges_def)
  then have "\<forall>i\<in>set [1..<length h]. \<not> bidChangedAt h i"
    by (simp add: filter_empty_conv)
  then show ?thesis using assms(2,3) by simp
qed

text \<open>
  For every history of at least two snapshots without any bid change, \<open>updateMetrics\<close>
  sets \<open>lastChangeHours\<close> to the time since the latest snapshot.
\<close>

lemma updateMetrics_lastChangeHours_no_change:
  assumes "2 \<le> length (history ph)" "adjacentChanges (history ph) = 0"
  shows "lastChangeHours (metrics (updateMetrics now ph))
           = Some ((of_int (now - timestamp (last (history ph))) :: rat) / (1000 * 60 * 60))"
proof -
  let ?h = "history ph"
  have ne: "?h \<noteq> []" using assms(1) by auto
  have "\<forall>j. 0 < j \<and> j \<le> length ?h - 1 \<longrightarrow> \<not> bidChangedAt ?h j"
    using adjacentChanges_zero[OF assms(2)] by auto
  then have flc: "findLastChange ?h (length ?h - 1) (length ?h - 1) = length ?h - 1"
    by (rule findLastChange_none)
  have pos: "0 < length ?h - 1" using assms(1) by simp
  show ?thesis
    unfolding updateMetrics_lastChangeHours[OF assms(1)] flc
    using pos ne by (simp add: last_conv_nth)
qed

text \<open>
  C3. After two passes that record the same bid (600) for a listing, one day apart, no
  adjacent pair of its two snapshots differs, yet \<open>lastChangeHours\<close> is not \<open>null\<close>: it is
  the time since the latest snapshot (here one minute, 1/60 hour), and the recency tier
  adds 20 points to the competition score.
\<close>

theorem lastChangeHours_without_change:
  "history (the (bidHistory quietTracker2 ''250900001''))
     = [exampleSnapshot 0 600 Undefined Undefined,
        exampleSnapshot 86400000 600 Undefined Undefined]
   \<and> adjacentChanges (history (the (bidHistory quietTracker2 ''250900001''))) = 0
   \<and> lastChangeHours (metrics (the (bidHistory quietTracker1 ''250900001''))) = None
   \<and> lastChangeHours (metrics (the (bidHistory quietTracker2 ''250900001''))) = Some (1 / 60)
   \<and> competitionScore (metrics (the (bidHistory quietTracker2 ''250900001''))) = 20"
proof -
  have c: "adjacentChanges [exampleSnapshot 0 600 Undefined Undefined,
        exampleSnapshot 86400000 600 Undefined Undefined] = 0"
    by (simp add: adjacentChanges_def bidChangedAt_def exampleSnapshot_def strict_neq_def)
  show ?thesis
    using c by (simp add: quietTracker2_eq quietTracker1_eq exampleEntry_def freshMetrics_def)
qed





text \<open>Sequences of operations on a deployment.\<close>

lemma run_snoc: "run (ops @ [a]) s = exec a (run ops s)"
  by (simp add: run_def)

lemma loaded_append: "loaded (ops @ ops') = loaded ops @ loaded ops'"
  by (induction ops rule: loaded.induct) simp_all

lemma stepMap_dom:
  "dom (stepMap ts now bh p) = insert (propertyKey (auctionId p)) (dom bh)"
  by (simp add: stepMap_def)

lemma snapshotLoop_dom:
  "dom (fst (fst (snapshotLoop ts clock ps (bh, c, k))))
     \<subseteq> dom bh \<union> (\<lambda>p. propertyKey (auctionId p)) ` set ps"
proof (induction ps arbitrary: bh c k)
  case Nil
  show ?case by simp
next
  case (Cons p ps)
  show ?case
  proof (cases "throwsFor bh p")
    case True
    then show ?thesis by (auto simp: snapshotLoop_Cons)
  next
    case False
    let ?c = "if changedFor (entryFor bh p) p then c + 1 else c"
    have "dom (fst (fst (snapshotLoop ts clock ps (stepMap ts (clock k) bh p, ?c, k + 1))))
            \<subseteq> dom (stepMap ts (clock k) bh p) \<union> (\<lambda>p. propertyKey (auctionId p)) ` set ps"
      by (rule Cons.IH)
    then show ?thesis
      unfolding snapshotLoop_Cons if_not_P[OF False] stepMap_dom by auto
  qed
qed

lemma readFile_dom: "dom (readFile stored) = dom stored"
  by (auto simp: readFile_def dom_def)

lemma exec_Snapshot_process:
  "process (exec (Snapshot ts clock written) s)
     = fst (recordSnapshot None ts clock written (process s))"
  by (simp add: exec.simps(4) split: prod.splits sum.splits option.splits)

lemma exec_Snapshot_file:
  "historyFile (exec (Snapshot ts clock written) s) = historyFile s
   \<or> historyFile (exec (Snapshot ts clock written) s)
       = Some (bidHistory (process (exec (Snapshot ts clock written) s)))"
  by (simp add: exec.simps(4) split: prod.splits sum.splits option.splits)

lemma exec_file:
  "historyFile (exec a s) = historyFile s
   \<or> (isSnapshot a \<and> historyFile (exec a s) = Some (bidHistory (process (exec a s))))"
proof (cases a)
  case (Snapshot ts clock written)
  then show ?thesis using exec_Snapshot_file[of ts clock written s] by auto
qed simp_all

lemma exec_changes:
  assumes "bidHistory (process (exec a s)) x \<noteq> bidHistory (process s) x"
  shows "if isSnapshot a
         then x \<in> (\<lambda>p. propertyKey (auctionId p)) ` set (currentProperties (process s))
         else x \<in> dom (bidHistory (process s)) \<union> fileKeys (historyFile s)"
proof (cases a)
  case Construct
  then show ?thesis
    using assms by (cases "bidHistory (process s) x") (auto simp: BidTracker_def)
next
  case (LoadHistory readable)
  show ?thesis
  proof (cases "readable \<and> historyFile s \<noteq> None")
    case True
    then obtain stored where st: "historyFile s = Some stored" by auto
    have "bidHistory (process (exec a s)) = readFile stored"
      using LoadHistory True st by (simp add: loadBidHistory_def)
    then have "x \<in> dom (bidHistory (process s)) \<or> x \<in> dom (readFile stored)"
      using assms by (cases "bidHistory (process s) x") auto
    then show ?thesis using LoadHistory st by (simp add: readFile_dom fileKeys_def)
  next
    case False
    then have "bidHistory (process (exec a s)) = Map.empty"
      using LoadHistory by (auto simp: loadBidHistory_def)
    then show ?thesis
      using assms LoadHistory by (cases "bidHistory (process s) x") auto
  qed
next
  case (Load fl)
  then show ?thesis using assms by (simp add: loadCurrentProperties_def split: option.splits)
next
  case (Snapshot ts clock written)
  have "x \<in> (\<lambda>p. propertyKey (auctionId p)) ` set (currentProperties (process s))"
  proof (rule ccontr)
    assume "x \<notin> (\<lambda>p. propertyKey (auctionId p)) ` set (currentProperties (process s))"
    then have "fst (fst (snapshotLoop ts clock (currentProperties (process s))
                           (bidHistory (process s), 0, 0))) x
                 = bidHistory (process s) x"
      by (rule snapshotLoop_other)
    then show False
      using assms Snapshot by (simp add: exec_Snapshot_process recordSnapshot_bidHistory)
  qed
  then show ?thesis using Snapshot by simp
qed

lemma run_invariant:
  "(\<forall>p\<in>set (currentProperties (process (run ops (deploy initial)))).
       isIndividual p \<and> p \<in> set (loaded ops))
   \<and> (\<forall>x\<in>dom (bidHistory (process (run ops (deploy initial))))
            \<union> fileKeys (historyFile (run ops (deploy initial))).
         x \<in> fileKeys initial
         \<or> (\<exists>p\<in>set (loaded ops). isIndividual p \<and> propertyKey (auctionId p) = x))"
proof (induction ops rule: rev_induct)
  case Nil
  show ?case by (simp add: run_def deploy_def BidTracker_def)
next
  case (snoc a ops)
  let ?s = "run ops (deploy initial)"
  let ?ok = "\<lambda>ops x. x \<in> fileKeys initial
               \<or> (\<exists>p\<in>set (loaded ops). isIndividual p \<and> propertyKey (auctionId p) = x)"
  have cur: "\<forall>p\<in>set (currentProperties (process ?s)). isIndividual p \<and> p \<in> set (loaded ops)"
    and hist: "\<forall>x\<in>dom (bidHistory (process ?s)) \<union> fileKeys (historyFile ?s). ?ok ops x"
    using snoc.IH by simp_all
  show ?case
  proof (cases a)
    case Construct
    then show ?thesis
      using hist by (simp add: run_snoc loaded_append BidTracker_def)
  next
    case (LoadHistory readable)
    have l: "loaded (ops @ [a]) = loaded ops" using LoadHistory by (simp add: loaded_append)
    have c: "currentProperties (process (exec a ?s)) = currentProperties (process ?s)"
      using LoadHistory by (simp add: loadBidHistory_def split: option.splits)
    have f: "historyFile (exec a ?s) = historyFile ?s" using LoadHistory by simp
    have d: "dom (bidHistory (process (exec a ?s))) \<subseteq> fileKeys (historyFile ?s)"
      using LoadHistory
      by (auto simp: loadBidHistory_def fileKeys_def readFile_dom split: option.splits
            if_splits)
    show ?thesis
      unfolding run_snoc l c f using cur hist d by blast
  next
    case (Load fl)
    show ?thesis
    proof (cases fl)
      case None
      then show ?thesis
        using Load hist by (simp add: run_snoc loaded_append loadCurrentProperties_def)
    next
      case (Some f)
      have h': "\<forall>x\<in>dom (bidHistory (process ?s)) \<union> fileKeys (historyFile ?s).
         x \<in> fileKeys initial
         \<or> (\<exists>p\<in>set (loaded ops) \<union> set f. isIndividual p \<and> propertyKey (auctionId p) = x)"
        using hist by blast
      show ?thesis
        using Load Some h' by (simp add: run_snoc loaded_append loadCurrentProperties_def)
    qed
  next
    case (Snapshot ts clock written)
    have l: "loaded (ops @ [a]) = loaded ops" using Snapshot by (simp add: loaded_append)
    have d: "dom (bidHistory (process (exec a ?s)))
               \<subseteq> dom (bidHistory (process ?s))
                 \<union> (\<lambda>p. propertyKey (auctionId p)) ` set (currentProperties (process ?s))"
      using Snapshot snapshotLoop_dom[of ts clock "currentProperties (process ?s)"
              "bidHistory (process ?s)" 0 0]
      by (simp add: exec_Snapshot_process recordSnapshot_bidHistory)
    have c: "currentProperties (process (exec a ?s)) = currentProperties (process ?s)"
      using Snapshot by (simp add: exec_Snapshot_process recordSnapshot_currentProperties)
    have f: "fileKeys (historyFile (exec a ?s))
               \<subseteq> fileKeys (historyFile ?s) \<union> dom (bidHistory (process (exec a ?s)))"
      using exec_file[of a ?s] by (auto simp: fileKeys_def)
    have mem: "\<forall>x\<in>dom (bidHistory (process (exec a ?s))). ?ok ops x"
      using d cur hist by blast
    then have "\<forall>x\<in>fileKeys (historyFile (exec a ?s)). ?ok ops x"
      using f hist by blast
    then show ?thesis
      unfolding run_snoc l c using cur mem by blast
  qed
qed

text \<open>
  C6. Take a deployment whose history file holds anything or does not exist, and apply
  any sequence of operations: constructing the tracker, \<open>loadBidHistory\<close>,
  \<open>loadCurrentProperties\<close> and \<open>recordSnapshot()\<close>. Then every listing in the tracker's
  list, which is the input of the next \<open>recordSnapshot()\<close>, has a closing time (its
  \<open>biddingCloses\<close> is neither absent, \<open>null\<close>, empty nor \<open>"N/A"\<close>). Every key of a history, in
  memory or in the history file, is a key of the initial file or the ID of a listing
  with a closing time from a loaded properties file. So a listing without closing time
  is never in the list and, unless its ID is a key of the initial file or the ID of a
  loaded listing with a closing time, there is no history for it in memory or in the
  file. The next operation, when it is a snapshot, creates or updates a history only
  under the ID of a listing of the list, which has a closing time; any other operation
  changes the histories in memory only by dropping them or reading them from the file.
  The file is only ever replaced by a snapshot, with the histories in memory.
\<close>

theorem bundle_exclusion:
  "(\<forall>p\<in>set (currentProperties (process (run ops (deploy initial)))). isIndividual p)
   \<and> (\<forall>x\<in>dom (bidHistory (process (run ops (deploy initial))))
            \<union> fileKeys (historyFile (run ops (deploy initial))).
         x \<in> fileKeys initial
         \<or> (\<exists>p\<in>set (loaded ops). isIndividual p \<and> propertyKey (auctionId p) = x))
   \<and> (\<not> isIndividual b
        \<and> propertyKey (auctionId b) \<notin> fileKeys initial
        \<and> (\<forall>p\<in>set (loaded ops). isIndividual p
              \<longrightarrow> propertyKey (auctionId p) \<noteq> propertyKey (auctionId b))
       \<longrightarrow> b \<notin> set (currentProperties (process (run ops (deploy initial))))
           \<and> bidHistory (process (run ops (deploy initial))) (propertyKey (auctionId b)) = None
           \<and> propertyKey (auctionId b) \<notin> fileKeys (historyFile (run ops (deploy initial))))
   \<and> (\<forall>x. bidHistory (process (exec a (run ops (deploy initial)))) x
             \<noteq> bidHistory (process (run ops (deploy initial))) x
         \<longrightarrow> (if isSnapshot a
              then \<exists>p\<in>set (currentProperties (process (run ops (deploy initial)))).
                     isIndividual p \<and> propertyKey (auctionId p) = x
              else x \<in> dom (bidHistory (process (run ops (deploy initial))))
                       \<union> fileKeys (historyFile (run ops (deploy initial)))))
   \<and> (historyFile (exec a (run ops (deploy initial))) = historyFile (run ops (deploy initial))
      \<or> (isSnapshot a
          \<and> historyFile (exec a (run ops (deploy initial)))
              = Some (bidHistory (process (exec a (run ops (deploy initial)))))))
   \<and> isIndividual q
       = (biddingCloses q \<noteq> Absent \<and> biddingCloses q \<noteq> NullValue
          \<and> biddingCloses q \<noteq> Text [] \<and> biddingCloses q \<noteq> Text ''N/A'')"
proof -
  let ?s = "run ops (deploy initial)"
  have i: "isIndividual q
       = (biddingCloses q \<noteq> Absent \<and> biddingCloses q \<noteq> NullValue
          \<and> biddingCloses q \<noteq> Text [] \<and> biddingCloses q \<noteq> Text ''N/A'')"
    by (cases "biddingCloses q") (simp_all add: isIndividual_def truthy_slot_def)
  have c1: "\<forall>p\<in>set (currentProperties (process ?s)). isIndividual p"
    using run_invariant[of ops initial] by blast
  have c2: "\<forall>x\<in>dom (bidHistory (process ?s)) \<union> fileKeys (historyFile ?s).
         x \<in> fileKeys initial
         \<or> (\<exists>p\<in>set (loaded ops). isIndividual p \<and> propertyKey (auctionId p) = x)"
    using run_invariant[of ops initial] by blast
  have c3: "b \<notin> set (currentProperties (process ?s))
           \<and> bidHistory (process ?s) (propertyKey (auctionId b)) = None
           \<and> propertyKey (auctionId b) \<notin> fileKeys (historyFile ?s)"
    if "\<not> isIndividual b \<and> propertyKey (auctionId b) \<notin> fileKeys initial
        \<and> (\<forall>p\<in>set (loaded ops). isIndividual p
              \<longrightarrow> propertyKey (auctionId p) \<noteq> propertyKey (auctionId b))"
  proof -
    have "propertyKey (auctionId b) \<notin> dom (bidHistory (process ?s)) \<union> fileKeys (historyFile ?s)"
      using c2 that by blast
    then show ?thesis using c1 that by auto
  qed
  have c4: "if isSnapshot a
            then \<exists>p\<in>set (currentProperties (process ?s)).
                   isIndividual p \<and> propertyKey (auctionId p) = x
            else x \<in> dom (bidHistory (process ?s)) \<union> fileKeys (historyFile ?s)"
    if "bidHistory (process (exec a ?s)) x \<noteq> bidHistory (process ?s) x" for x
    using exec_changes[OF that] c1 by (auto split: if_splits)
  have c5: "historyFile (exec a ?s) = historyFile ?s
      \<or> (isSnapshot a \<and> historyFile (exec a ?s) = Some (bidHistory (process (exec a ?s))))"
    by (rule exec_file)
  show ?thesis
    using c1 c2 c3 c4 c5 i by blast
qed

text \<open>The example run tracks the individual listing only.\<close>

lemma exampleRun_eq:
  "run exampleRun (deploy None) =
     \<lparr>process =
        \<lparr>bidHistory = [''250900001'' \<mapsto>
           exampleEntry ''250900001'' [exampleSnapshot 0 600 Undefined Undefined]
             (freshMetrics (Number (Fin 600)))],
         currentProperties = [quietListing]\<rparr>,
      historyFile = Some [''250900001'' \<mapsto>
           exampleEntry ''250900001'' [exampleSnapshot 0 600 Undefined Undefined]
             (freshMetrics (Number (Fin 600)))]\<rparr>"
proof -
  have i: "isIndividual quietListing" "\<not> isIndividual bundleListing"
    by (simp_all add: isIndividual_def truthy_slot_def quietListing_def bundleListing_def
          exampleListing_sel)
  have l: "run (initialize True (Some [bundleListing, quietListing])) (deploy None)
             = \<lparr>process = \<lparr>bidHistory = Map.empty, currentProperties = [quietListing]\<rparr>,
                historyFile = None\<rparr>"
    using i
    by (simp add: run_def initialize_def deploy_def loadBidHistory_def loadCurrentProperties_def
          BidTracker_def)
  have s: "recordSnapshot None 0 (fixedClock 0) True
              \<lparr>bidHistory = Map.empty, currentProperties = [quietListing]\<rparr>
           = (\<lparr>bidHistory = [''250900001'' \<mapsto>
                  exampleEntry ''250900001'' [exampleSnapshot 0 600 Undefined Undefined]
                    (freshMetrics (Number (Fin 600)))],
               currentProperties = [quietListing]\<rparr>,
              Inr (Some \<lparr>r_timestamp = 0, r_totalTracked = 1, r_newChanges = 1\<rparr>))"
    by (simp add: recordSnapshot_def snapshotLoop_single throwsFor_def stepMap_def exampleKeys
          entryFor_def changedFor_def snapshotFor_def propertyKey_def effectiveBid_def js_or_def
          truthy_def truthy_val_def fixedClock_def newHistory_def exampleSnapshot_def
          exampleEntry_def freshMetrics_def updateMetrics_short quietListing_def
          exampleListing_sel)
  have "run exampleRun (deploy None)
          = exec (Snapshot 0 (fixedClock 0) True)
              (run (initialize True (Some [bundleListing, quietListing])) (deploy None))"
    unfolding exampleRun_def by (rule run_snoc)
  then show ?thesis
    unfolding l by (simp add: exec.simps(4) s)
qed

theorem bundle_exclusion_witness:
  "currentProperties (process (run exampleRun (deploy None))) = [quietListing]
   \<and> isIndividual quietListing
   \<and> loaded exampleRun = [bundleListing, quietListing]
   \<and> biddingCloses bundleListing = Text ''N/A''
   \<and> \<not> isIndividual bundleListing
   \<and> propertyKey (auctionId bundleListing) \<noteq> propertyKey (auctionId quietListing)
   \<and> fileKeys None = {}
   \<and> dom (bidHistory (process (run exampleRun (deploy None)))) = {''250900001''}
   \<and> fileKeys (historyFile (run exampleRun (deploy None))) = {''250900001''}
   \<and> bidHistory (process (run exampleRun (deploy None))) (propertyKey (auctionId bundleListing))
       = None
   \<and> bidHistory (process (exec (Snapshot 86400000 (fixedClock 86400000) True)
                              (run exampleRun (deploy None))))
        (propertyKey (auctionId bundleListing)) = None"
proof -
  let ?s = "run exampleRun (deploy None)"
  let ?a = "Snapshot 86400000 (fixedClock 86400000) True"
  note all = bundle_exclusion[of exampleRun None bundleListing ?a bundleListing]
  have k: "propertyKey (auctionId bundleListing) = ''250900003''"
      "propertyKey (auctionId quietListing) = ''250900001''"
    by (simp_all add: bundleListing_def quietListing_def exampleListing_sel propertyKey_def)
  have b: "biddingCloses bundleListing = Text ''N/A''"
    by (simp add: bundleListing_def exampleListing_sel)
  have nb: "\<not> isIndividual bundleListing"
    using conjunct2[OF conjunct2[OF conjunct2[OF conjunct2[OF conjunct2[OF all]]]]] b by simp
  have ld: "loaded exampleRun = [bundleListing, quietListing]"
    by (simp add: exampleRun_def initialize_def)
  have fk: "fileKeys None = {}" by (simp add: fileKeys_def)
  have cur: "currentProperties (process ?s) = [quietListing]"
    by (simp add: exampleRun_eq)
  have "\<forall>p\<in>set (currentProperties (process ?s)). isIndividual p"
    by (rule conjunct1[OF all])
  then have ind: "isIndividual quietListing" by (simp add: cur)
  have pre: "\<not> isIndividual bundleListing
        \<and> propertyKey (auctionId bundleListing) \<notin> fileKeys None
        \<and> (\<forall>p\<in>set (loaded exampleRun). isIndividual p
              \<longrightarrow> propertyKey (auctionId p) \<noteq> propertyKey (auctionId bundleListing))"
    using nb by (simp add: ld fk k)
  have absent: "bundleListing \<notin> set (currentProperties (process ?s))
           \<and> bidHistory (process ?s) (propertyKey (auctionId bundleListing)) = None
           \<and> propertyKey (auctionId bundleListing) \<notin> fileKeys (historyFile ?s)"
    using conjunct1[OF conjunct2[OF conjunct2[OF all]]] pre by blast
  have fourth: "\<forall>x. bidHistory (process (exec ?a ?s)) x \<noteq> bidHistory (process ?s) x
         \<longrightarrow> (if isSnapshot ?a
              then \<exists>p\<in>set (currentProperties (process ?s)).
                     isIndividual p \<and> propertyKey (auctionId p) = x
              else x \<in> dom (bidHistory (process ?s)) \<union> fileKeys (historyFile ?s))"
    by (rule conjunct1[OF conjunct2[OF conjunct2[OF conjunct2[OF all]]]])
  have "bidHistory (process (exec ?a ?s)) (propertyKey (auctionId bundleListing))
        = bidHistory (process ?s) (propertyKey (auctionId bundleListing))"
  proof (rule ccontr)
    assume "\<not> ?thesis"
    then have "\<exists>p\<in>set (currentProperties (process ?s)).
                isIndividual p \<and> propertyKey (auctionId p) = propertyKey (auctionId bundleListing)"
      using fourth by simp
    then show False by (simp add: cur k)
  qed
  then have unchanged: "bidHistory (process (exec ?a ?s))
                          (propertyKey (auctionId bundleListing)) = None"
    using absent by simp
  have d: "dom (bidHistory (process ?s)) = {''250900001''}"
    "fileKeys (historyFile ?s) = {''250900001''}"
    by (simp_all add: exampleRun_eq fileKeys_def)
  show ?thesis
    using cur ind ld b nb fk d absent unchanged by (simp add: k)
qed


section \<open>Remarks on the hypotheses of the statement about repeated passes\<close>

text \<open>
  Every state the tracker reaches from its constructor stores non-empty histories only,
  in memory and in the history file, provided the initial file does.
\<close>

lemma snapshotLoop_nonempty:
  "nonemptyHistories bh
     \<Longrightarrow> nonemptyHistories (fst (fst (snapshotLoop ts clock ps (bh, c, k))))"
proof (induction ps arbitrary: bh c k)
  case Nil
  then show ?case by simp
next
  case (Cons p ps)
  show ?case
  proof (cases "throwsFor bh p")
    case True
    then show ?thesis using Cons.prems by (simp add: snapshotLoop_Cons)
  next
    case False
    show ?thesis
      unfolding snapshotLoop_Cons if_not_P[OF False]
      by (rule Cons.IH) (rule stepMap_nonempty[OF Cons.prems])
  qed
qed

lemma recordSnapshot_nonempty:
  "nonemptyHistories (bidHistory t)
     \<Longrightarrow> nonemptyHistories (bidHistory (fst (recordSnapshot properties ts clock written t)))"
  by (simp add: recordSnapshot_bidHistory snapshotLoop_nonempty)

lemma readFile_nonempty:
  "nonemptyHistories stored \<Longrightarrow> nonemptyHistories (readFile stored)"
  by (auto simp: nonemptyHistories_def readFile_def readBack_def)

lemma exec_nonempty:
  assumes "nonemptyHistories (bidHistory (process s))"
    and "\<forall>stored. historyFile s = Some stored \<longrightarrow> nonemptyHistories stored"
  shows "nonemptyHistories (bidHistory (process (exec a s)))
       \<and> (\<forall>stored. historyFile (exec a s) = Some stored \<longrightarrow> nonemptyHistories stored)"
proof (cases a)
  case Construct
  then show ?thesis using assms(2) by (simp add: BidTracker_def nonemptyHistories_def)
next
  case (LoadHistory readable)
  have "nonemptyHistories (bidHistory (process (exec a s)))"
  proof (cases "readable \<and> historyFile s \<noteq> None")
    case True
    then obtain stored where st: "historyFile s = Some stored" by auto
    then have "nonemptyHistories (readFile stored)"
      using assms(2) by (intro readFile_nonempty) simp
    then show ?thesis using LoadHistory True st by (simp add: loadBidHistory_def)
  next
    case False
    then have "bidHistory (process (exec a s)) = Map.empty"
      using LoadHistory by (auto simp: loadBidHistory_def)
    then show ?thesis by (simp add: nonemptyHistories_def)
  qed
  then show ?thesis using LoadHistory assms(2) by simp
next
  case (Load fl)
  then show ?thesis
    using assms by (simp add: loadCurrentProperties_def split: option.splits)
next
  case (Snapshot ts clock written)
  have m: "nonemptyHistories (bidHistory (process (exec a s)))"
    using Snapshot assms(1) by (simp add: exec_Snapshot_process recordSnapshot_nonempty)
  then show ?thesis
    using exec_file[of a s] assms(2) by auto
qed

lemma run_nonempty:
  assumes "\<forall>stored. initial = Some stored \<longrightarrow> nonemptyHistories stored"
  shows "nonemptyHistories (bidHistory (process (run ops (deploy initial))))
       \<and> (\<forall>stored. historyFile (run ops (deploy initial)) = Some stored
             \<longrightarrow> nonemptyHistories stored)"
proof (induction ops rule: rev_induct)
  case Nil
  show ?case using assms by (simp add: run_def deploy_def BidTracker_def nonemptyHistories_def)
next
  case (snoc a ops)
  show ?case
    unfolding run_snoc by (rule exec_nonempty) (use snoc.IH in simp_all)
qed

text \<open>
  Distinct IDs are needed: when the same ID occurs twice in the input with different
  bids, every pass sees two changes.
\<close>

lemma duplicate_ids_report_changes:
  "snd (recordSnapshot (Some [openingListing, quietListing]) 86400000 (fixedClock 86400000) True
          (fst (recordSnapshot (Some [openingListing, quietListing]) 0 (fixedClock 0) True
                  BidTracker)))
     = Inr (Some \<lparr>r_timestamp = 86400000, r_totalTracked = 2, r_newChanges = 2\<rparr>)"
proof -
  have k: "propertyKey (auctionId openingListing) = ''250900001''"
    "propertyKey (auctionId quietListing) = ''250900001''"
    by (simp_all add: openingListing_def quietListing_def exampleListing_sel propertyKey_def)
  have b: "effectiveBid openingListing = Number (Fin 500)"
    "effectiveBid quietListing = Number (Fin 600)"
    by (simp_all add: openingListing_def quietListing_def exampleListing_sel effectiveBid_def
          js_or_def truthy_def)
  have nt: "\<not> throwsFor bh openingListing" "\<not> throwsFor bh quietListing" for bh
    by (simp_all add: throwsFor_def k exampleKeys)
  have last_after: "snap_currentBid (last (history
          (the (stepMap ts now bh p (propertyKey (auctionId p)))))) = effectiveBid p"
    for ts now bh p
    by (simp add: stepMap_key)
  have ent: "entryFor (stepMap ts now bh p) q
      = the (stepMap ts now bh p (propertyKey (auctionId p)))"
    if "propertyKey (auctionId q) = propertyKey (auctionId p)" for ts now bh p q
    using that by (simp add: entryFor_def stepMap_key)
  have hist_after: "history (the (stepMap ts now bh p (propertyKey (auctionId p)))) \<noteq> []"
    for ts now bh p
    by (simp add: stepMap_key)
  let ?o = openingListing and ?q = quietListing
  let ?b1 = "stepMap 0 (fixedClock 0 0) (bidHistory BidTracker) ?o"
  let ?b2 = "stepMap 0 (fixedClock 0 1) ?b1 ?q"
  let ?b3 = "stepMap 86400000 (fixedClock 86400000 0) ?b2 ?o"
  let ?b4 = "stepMap 86400000 (fixedClock 86400000 1) ?b3 ?q"
  have t1: "bidHistory (fst (recordSnapshot (Some [?o, ?q]) 0 (fixedClock 0) True BidTracker)) = ?b2"
    by (simp add: recordSnapshot_bidHistory snapshotLoop_Cons nt)
  have c3: "changedFor (entryFor ?b2 ?o) ?o"
    unfolding changedFor_def ent[of ?o ?q, OF k(1)[unfolded k(2)[symmetric]]]
    by (simp add: last_after b strict_neq_def)
  have c4: "changedFor (entryFor ?b3 ?q) ?q"
    unfolding changedFor_def ent[of ?q ?o, OF k(2)[unfolded k(1)[symmetric]]]
    by (simp add: last_after b strict_neq_def)
  have l: "snapshotLoop 86400000 (fixedClock 86400000) [?o, ?q] (?b2, 0, 0)
          = ((?b4, 2, 2), None)"
    using c3 c4 by (simp add: snapshotLoop_Cons nt)
  have ne: "[?o, ?q] \<noteq> []" by simp
  have no: "snd (snapshotLoop 86400000 (fixedClock 86400000) [?o, ?q]
                  (bidHistory (fst (recordSnapshot (Some [?o, ?q]) 0 (fixedClock 0) True
                     BidTracker)), 0, 0)) = None"
    unfolding t1 l by simp
  show ?thesis
    unfolding recordSnapshot_result[OF ne no] t1 l by simp
qed

text \<open>
  IDs that name a member of \<open>Object.prototype\<close> are excluded: a pass over a listing with
  the ID \<open>constructor\<close>, on a tracker without history for it, ends with a TypeError and
  records nothing. The worker writes IDs in decimal digits, so the listings it emits do
  not have such an ID.
\<close>

lemma prototype_id_throws:
  "recordSnapshot (Some [constructorListing]) 0 (fixedClock 0) True BidTracker
     = (BidTracker, Inl TypeError)"
  by (simp add: constructorListing_def recordSnapshot_def snapshotLoop_single throwsFor_def
        exampleKeys exampleListing_sel propertyKey_def BidTracker_def)

lemma digitChar_isDigit: "d < 10 \<Longrightarrow> isDigit (digitChar d)"
  by (simp add: isDigit_def digitChar_code)

lemma natToString_hd: "natToString n \<noteq> [] \<and> isDigit (hd (natToString n))"
proof (induction n rule: natToString.induct)
  case (1 n)
  show ?case
  proof (cases "n < 10")
    case True
    then show ?thesis by (subst (1 2) natToString.simps) (simp add: digitChar_isDigit)
  next
    case False
    then show ?thesis using "1.IH"[OF False] by (subst (1 2) natToString.simps) simp
  qed
qed

lemma prototypeMembers_hd:
  "k \<in> set prototypeMembers \<Longrightarrow> k \<noteq> [] \<and> \<not> isDigit (hd k) \<and> hd k \<noteq> CHR ''-''"
  by (auto simp: prototypeMembers_def isDigit_def)

lemma worker_ids_safe:
  "propertyKey (auctionId (parseNumeric i propertyData)) \<notin> set prototypeMembers"
proof
  assume m: "propertyKey (auctionId (parseNumeric i propertyData)) \<in> set prototypeMembers"
  have k: "propertyKey (auctionId (parseNumeric i propertyData)) = toString i"
    by (simp add: parseNumeric_def pagedata.defs listing.defs propertyKey_def)
  have "\<not> isDigit (hd (toString i)) \<and> hd (toString i) \<noteq> CHR ''-''"
    using prototypeMembers_hd[OF m] by (simp add: k)
  then show False
    using natToString_hd[of "nat i"] by (simp add: toString_def split: if_splits)
qed

end
